theory Spec2Isabelle
  imports Complex_Main "HOL-Library.AList" "HOL-Library.Monad_Syntax"
begin

section \<open>Data model\<close>

text \<open>
  The scoring engine is the function \<open>compute_scores\<close> of \<open>app.py\<close>. It receives a pandas
  DataFrame and five weights. A DataFrame is modelled column-wise, as the code reads and
  writes it: an ordered association list from column names to columns, every column a
  list of cells. A cell of an input table holds a number, a text, or nothing (pandas'
  NaN/None). Numbers are real numbers: the arithmetic of the engine is modelled exactly,
  without the rounding of binary floating point and without infinities. Column dtypes
  (int64 wrap-around, infinities, integer objects) are the subject of a second model, in
  the section on column dtypes below, which agrees with this one on the frames of this one
  (lemma \<open>dtype_model_agrees\<close>).
\<close>

datatype cell = Num real | Text string | NA

type_synonym series = "cell list"

type_synonym dataframe = "(string \<times> series) list"

text \<open>
  \<open>pd.to_numeric\<close> parses texts with a parser of the pandas library; the parser is a
  parameter of the model. \<open>None\<close> is a text that does not parse as a number.
\<close>

type_synonym parser = "string \<Rightarrow> real option"

text \<open>
  DataFrames are mutable objects that the caller and the engine share by reference, so
  the model has an explicit heap: a reference is an index into the list of all frames
  allocated so far.
\<close>

type_synonym ref = nat

type_synonym heap = "dataframe list"

text \<open>
  The ranked views of the application (\<open>scored_df.sort_values("Priority Score",
  ascending=False)\<close>) are computed by the sorting routine of pandas alone; the model ends
  with the scored frame.
\<close>

section \<open>The pandas operations the engine uses\<close>

text \<open>\<open>len(df)\<close>: the number of rows.\<close>

definition nrows :: "dataframe \<Rightarrow> nat" where
  "nrows df = (case df of [] \<Rightarrow> 0 | (c, s) # rest \<Rightarrow> length s)"

text \<open>\<open>df.copy()\<close> allocates a new frame with the contents of the old one.\<close>

definition copy :: "heap \<Rightarrow> ref \<Rightarrow> (ref \<times> heap) option" where
  "copy h r = (if r < length h then Some (length h, h @ [h ! r]) else None)"

text \<open>\<open>df[col]\<close> raises KeyError (here \<open>None\<close>) when the frame has no such column.\<close>

definition getitem :: "heap \<Rightarrow> ref \<Rightarrow> string \<Rightarrow> series option" where
  "getitem h r col = (if r < length h then map_of (h ! r) col else None)"

text \<open>
  \<open>df[col] = s\<close> replaces the column in place when it exists and appends it as the last
  column otherwise. The frame behind the reference is mutated. A series of another length
  than the frame is reported as failure.
\<close>

definition setitem :: "heap \<Rightarrow> ref \<Rightarrow> string \<Rightarrow> series \<Rightarrow> heap option" where
  "setitem h r col s =
     (if r < length h \<and> length s = nrows (h ! r)
      then Some (h[r := AList.update col s (h ! r)]) else None)"

text \<open>\<open>pd.to_numeric(s, errors="coerce")\<close>: what is not a number becomes NaN.\<close>

fun to_numeric_cell :: "parser \<Rightarrow> cell \<Rightarrow> cell" where
  "to_numeric_cell p (Num x) = Num x"
| "to_numeric_cell p (Text t) = (case p t of Some x \<Rightarrow> Num x | None \<Rightarrow> NA)"
| "to_numeric_cell p NA = NA"

definition to_numeric :: "parser \<Rightarrow> series \<Rightarrow> series" where
  "to_numeric p s = map (to_numeric_cell p) s"

text \<open>\<open>s.fillna(v)\<close>\<close>

fun fillna_cell :: "real \<Rightarrow> cell \<Rightarrow> cell" where
  "fillna_cell v NA = Num v"
| "fillna_cell v c = c"

definition fillna :: "real \<Rightarrow> series \<Rightarrow> series" where
  "fillna v s = map (fillna_cell v) s"

text \<open>
  Arithmetic on cells: NaN propagates, a text operand raises TypeError (\<open>None\<close>).
\<close>

fun cell_op1 :: "(real \<Rightarrow> real) \<Rightarrow> cell \<Rightarrow> cell option" where
  "cell_op1 f (Num x) = Some (Num (f x))"
| "cell_op1 f NA = Some NA"
| "cell_op1 f (Text t) = None"

fun cell_op2 :: "(real \<Rightarrow> real \<Rightarrow> real) \<Rightarrow> cell \<Rightarrow> cell \<Rightarrow> cell option" where
  "cell_op2 f (Text t) c = None"
| "cell_op2 f c (Text t) = None"
| "cell_op2 f (Num x) (Num y) = Some (Num (f x y))"
| "cell_op2 f NA c = Some NA"
| "cell_op2 f c NA = Some NA"

text \<open>\<open>s * w\<close>, \<open>c - s\<close> and \<open>s / w\<close> for a series \<open>s\<close> and a scalar.\<close>

definition series_mul :: "series \<Rightarrow> real \<Rightarrow> series option" where
  "series_mul s w = those (map (cell_op1 (\<lambda>x. x * w)) s)"

definition series_rsub :: "real \<Rightarrow> series \<Rightarrow> series option" where
  "series_rsub c s = those (map (cell_op1 (\<lambda>x. c - x)) s)"

text \<open>
  Division by zero gives no real number (numpy yields an infinity or NaN); the model
  reports it as failure, so that a result of the model never depends on it.
\<close>

definition series_truediv :: "series \<Rightarrow> real \<Rightarrow> series option" where
  "series_truediv s w = (if w = 0 then None else those (map (cell_op1 (\<lambda>x. x / w)) s))"

text \<open>
  \<open>s + t\<close> and \<open>s - t\<close> for two series of one frame (they share the frame's index, so
  they are combined position by position).
\<close>

definition series_add :: "series \<Rightarrow> series \<Rightarrow> series option" where
  "series_add s t =
     (if length s = length t then those (map2 (cell_op2 (+)) s t) else None)"

definition series_sub :: "series \<Rightarrow> series \<Rightarrow> series option" where
  "series_sub s t =
     (if length s = length t then those (map2 (cell_op2 (-)) s t) else None)"

section \<open>The scoring engine\<close>

definition rating_columns :: "string list" where
  "rating_columns =
     [''Business Value (1-5)'', ''Technical Feasibility (1-5)'', ''Data Readiness (1-5)'',
      ''Change Impact (1-5)'', ''Risk (1-5)'']"

text \<open>The loop \<open>for col in [...]: df[col] = pd.to_numeric(df[col], errors="coerce").fillna(0)\<close>.\<close>

fun coerce_columns :: "parser \<Rightarrow> string list \<Rightarrow> ref \<Rightarrow> heap \<Rightarrow> heap option" where
  "coerce_columns p [] df h = Some h"
| "coerce_columns p (col # cols) df h = do {
     s \<leftarrow> getitem h df col;
     h \<leftarrow> setitem h df col (fillna 0 (to_numeric p s));
     coerce_columns p cols df h
   }"

definition compute_scores ::
  "parser \<Rightarrow> heap \<Rightarrow> ref \<Rightarrow> real \<Rightarrow> real \<Rightarrow> real \<Rightarrow> real \<Rightarrow> real \<Rightarrow> (ref \<times> heap) option" where
  "compute_scores p h df0 w_value w_feas w_data w_change w_risk = do {
     (df, h) \<leftarrow> copy h df0;
     h \<leftarrow> coerce_columns p rating_columns df h;
     let weights_sum = w_value + w_feas + w_data + w_change + w_risk;
     let weights_sum = (if weights_sum = 0 then 1 else weights_sum);
     bv \<leftarrow> getitem h df ''Business Value (1-5)'';
     t1 \<leftarrow> series_mul bv w_value;
     tf \<leftarrow> getitem h df ''Technical Feasibility (1-5)'';
     t2 \<leftarrow> series_mul tf w_feas;
     a1 \<leftarrow> series_add t1 t2;
     dr \<leftarrow> getitem h df ''Data Readiness (1-5)'';
     t3 \<leftarrow> series_mul dr w_data;
     a2 \<leftarrow> series_add a1 t3;
     ci \<leftarrow> getitem h df ''Change Impact (1-5)'';
     t4 \<leftarrow> series_mul ci w_change;
     a3 \<leftarrow> series_sub a2 t4;
     rk \<leftarrow> getitem h df ''Risk (1-5)'';
     t5 \<leftarrow> series_mul rk w_risk;
     a4 \<leftarrow> series_sub a3 t5;
     ps \<leftarrow> series_truediv a4 weights_sum;
     h \<leftarrow> setitem h df ''Priority Score'' ps;
     tf \<leftarrow> getitem h df ''Technical Feasibility (1-5)'';
     dr \<leftarrow> getitem h df ''Data Readiness (1-5)'';
     r1 \<leftarrow> series_add tf dr;
     ci \<leftarrow> getitem h df ''Change Impact (1-5)'';
     c1 \<leftarrow> series_rsub 5 ci;
     r2 \<leftarrow> series_add r1 c1;
     rk \<leftarrow> getitem h df ''Risk (1-5)'';
     c2 \<leftarrow> series_rsub 5 rk;
     r3 \<leftarrow> series_add r2 c2;
     rs \<leftarrow> series_truediv r3 4;
     h \<leftarrow> setitem h df ''Readiness Score'' rs;
     Some (df, h)
   }"

text \<open>
  The call \<open>scored_df = compute_scores(st.session_state.use_cases, w_value, ...)\<close> of the
  application: the caller holds one frame and reads the frame that is returned.
\<close>

definition scored_df ::
  "parser \<Rightarrow> dataframe \<Rightarrow> real \<Rightarrow> real \<Rightarrow> real \<Rightarrow> real \<Rightarrow> real \<Rightarrow> dataframe option" where
  "scored_df p use_cases w_value w_feas w_data w_change w_risk =
     (case compute_scores p [use_cases] 0 w_value w_feas w_data w_change w_risk of
        None \<Rightarrow> None
      | Some (r, h) \<Rightarrow> Some (h ! r))"

section \<open>Reading a frame\<close>

text \<open>The cell of row \<open>i\<close> in column \<open>col\<close>; \<open>cell_at df i\<close> is row \<open>i\<close> as a dictionary.\<close>

definition cell_at :: "dataframe \<Rightarrow> nat \<Rightarrow> string \<Rightarrow> cell option" where
  "cell_at df i col =
     (case map_of df col of
        None \<Rightarrow> None
      | Some s \<Rightarrow> if i < length s then Some (s ! i) else None)"

text \<open>
  A frame of the data model: column names are unique, all columns have the length of the
  frame, and the five rating columns are present.
\<close>

definition frame_ok :: "dataframe \<Rightarrow> bool" where
  "frame_ok df \<longleftrightarrow>
     distinct (map fst df) \<and>
     list_all (\<lambda>(c, s). length s = nrows df) df \<and>
     list_all (\<lambda>col. col \<in> fst ` set df) rating_columns"

text \<open>
  The number the engine reads from row \<open>i\<close> of a rating column: the cell after
  \<open>pd.to_numeric(..., errors="coerce")\<close> and \<open>fillna(0)\<close>.
\<close>

definition rating :: "parser \<Rightarrow> dataframe \<Rightarrow> nat \<Rightarrow> string \<Rightarrow> real option" where
  "rating p df i col =
     (case cell_at df i col of
        None \<Rightarrow> None
      | Some c \<Rightarrow> (case fillna_cell 0 (to_numeric_cell p c) of Num x \<Rightarrow> Some x | _ \<Rightarrow> None))"

text \<open>The built-in table of \<open>load_initial_data\<close>, used when the CSV file is missing.\<close>

definition seed_data :: dataframe where
  "seed_data =
     [(''Use Case'',
         [Text ''Intelligent document triage for claims'', Text ''Member services AI copilot'',
          Text ''Provider data cleansing & matching'',
          Text ''Internal knowledge retrieval assistant'']),
      (''Business Value (1-5)'', [Num 5, Num 4, Num 4, Num 3]),
      (''Technical Feasibility (1-5)'', [Num 3, Num 4, Num 3, Num 5]),
      (''Data Readiness (1-5)'', [Num 3, Num 4, Num 2, Num 4]),
      (''Change Impact (1-5)'', [Num 4, Num 3, Num 2, Num 2]),
      (''Risk (1-5)'', [Num 3, Num 3, Num 2, Num 2]),
      (''Owner'',
         [Text ''Operations'', Text ''Customer Service'', Text ''Data Management'',
          Text ''Enterprise'']),
      (''Notes'',
         [Text ''High cost savings; requires integration with core systems.'',
          Text ''GenAI-based; frontline adoption is key.'',
          Text ''Improves downstream analytics & reporting.'',
          Text ''RAG-based Q&A over policies, SOPs, and training materials.''])]"


definition digit_parser :: parser where
  "digit_parser t = (if t = ''4'' then Some 4 else None)"


section \<open>Closed form of the scored frame\<close>

text \<open>
  The definitions of this section are not part of the engine: they name the frame that
  \<open>compute_scores\<close> is proved to return, and are used in the proofs only.
\<close>

definition cols_ok :: "dataframe \<Rightarrow> bool" where
  "cols_ok df \<longleftrightarrow> list_all (\<lambda>(c, s). length s = nrows df) df"

definition num :: "parser \<Rightarrow> cell \<Rightarrow> real" where
  "num p c = (case fillna_cell 0 (to_numeric_cell p c) of Num x \<Rightarrow> x | _ \<Rightarrow> 0)"

definition coerced :: "parser \<Rightarrow> dataframe \<Rightarrow> dataframe" where
  "coerced p d =
     map (\<lambda>(c, s). (c, if c \<in> set rating_columns then fillna 0 (to_numeric p s) else s)) d"

definition col_num :: "parser \<Rightarrow> dataframe \<Rightarrow> string \<Rightarrow> nat \<Rightarrow> real" where
  "col_num p d col i = num p (the (map_of d col) ! i)"

definition priority_col :: "parser \<Rightarrow> dataframe \<Rightarrow> real \<Rightarrow> real \<Rightarrow> real \<Rightarrow> real \<Rightarrow> real \<Rightarrow> series" where
  "priority_col p d w_value w_feas w_data w_change w_risk =
     map (\<lambda>i. Num ((col_num p d ''Business Value (1-5)'' i * w_value
                    + col_num p d ''Technical Feasibility (1-5)'' i * w_feas
                    + col_num p d ''Data Readiness (1-5)'' i * w_data
                    - col_num p d ''Change Impact (1-5)'' i * w_change
                    - col_num p d ''Risk (1-5)'' i * w_risk)
                   / (if w_value + w_feas + w_data + w_change + w_risk = 0 then 1 else w_value + w_feas + w_data + w_change + w_risk)))
       [0..<nrows d]"

definition readiness_col :: "parser \<Rightarrow> dataframe \<Rightarrow> series" where
  "readiness_col p d =
     map (\<lambda>i. Num ((col_num p d ''Technical Feasibility (1-5)'' i
                    + col_num p d ''Data Readiness (1-5)'' i
                    + (5 - col_num p d ''Change Impact (1-5)'' i)
                    + (5 - col_num p d ''Risk (1-5)'' i)) / 4))
       [0..<nrows d]"

definition scored_frame :: "parser \<Rightarrow> dataframe \<Rightarrow> real \<Rightarrow> real \<Rightarrow> real \<Rightarrow> real \<Rightarrow> real \<Rightarrow> dataframe" where
  "scored_frame p d w_value w_feas w_data w_change w_risk =
     AList.update ''Readiness Score'' (readiness_col p d)
       (AList.update ''Priority Score'' (priority_col p d w_value w_feas w_data w_change w_risk) (coerced p d))"

section \<open>Column dtypes and machine numbers\<close>

text \<open>
  pandas stores every column with a dtype, and \<open>compute_scores\<close> computes in the dtype of
  the columns it is given. The model above fixes the case of columns of finite floats,
  texts and missing values. This section models the same function on typed columns:
  int64 and uint64 columns, whose sums wrap around; float64 columns, which may hold
  infinities and NaN; bool columns; and object columns of Python integers, floats, strings
  and \<open>None\<close>. Names carry the prefix \<open>dt\<close> where the name of the source is taken by the
  model above. Arithmetic on finite floats stays exact: rounding, and overflow of a finite
  result, are not modelled.
\<close>

text \<open>
  A float64 value and its arithmetic with the special values: an infinity times zero and
  the difference of equal infinities are NaN, NaN propagates. The scalars (the weights,
  \<open>weights_sum\<close>, \<open>4.0\<close>) are finite.
\<close>

datatype fl = Fin real | PInf | NInf | NaN

fun fl_neg :: "fl \<Rightarrow> fl" where
  "fl_neg (Fin x) = Fin (- x)"
| "fl_neg PInf = NInf"
| "fl_neg NInf = PInf"
| "fl_neg NaN = NaN"

fun fl_add :: "fl \<Rightarrow> fl \<Rightarrow> fl" where
  "fl_add NaN y = NaN"
| "fl_add x NaN = NaN"
| "fl_add (Fin x) (Fin y) = Fin (x + y)"
| "fl_add PInf NInf = NaN"
| "fl_add NInf PInf = NaN"
| "fl_add PInf y = PInf"
| "fl_add x PInf = PInf"
| "fl_add NInf y = NInf"
| "fl_add x NInf = NInf"

definition fl_sub :: "fl \<Rightarrow> fl \<Rightarrow> fl" where
  "fl_sub x y = fl_add x (fl_neg y)"

fun fl_scale :: "fl \<Rightarrow> real \<Rightarrow> fl" where
  "fl_scale (Fin x) w = Fin (x * w)"
| "fl_scale PInf w = (if w = 0 then NaN else if 0 < w then PInf else NInf)"
| "fl_scale NInf w = (if w = 0 then NaN else if 0 < w then NInf else PInf)"
| "fl_scale NaN w = NaN"

fun fl_div :: "fl \<Rightarrow> real \<Rightarrow> fl" where
  "fl_div (Fin x) w =
     (if w \<noteq> 0 then Fin (x / w) else if 0 < x then PInf else if x < 0 then NInf else NaN)"
| "fl_div PInf w = (if 0 \<le> w then PInf else NInf)"
| "fl_div NInf w = (if 0 \<le> w then NInf else PInf)"
| "fl_div NaN w = NaN"

text \<open>
  int64 and uint64 arithmetic of numpy wraps around silently.
\<close>

definition wrap64 :: "int \<Rightarrow> int" where
  "wrap64 n = (n + 2 ^ 63) mod 2 ^ 64 - 2 ^ 63"

definition wrapu64 :: "int \<Rightarrow> int" where
  "wrapu64 n = n mod 2 ^ 64"

text \<open>
  Conversion of a Python integer to a float: an integer that rounds to \<open>2 ^ 1024\<close> or
  beyond has no float. For an integer object the conversion raises OverflowError; for the
  digits of a text it gives an infinity.
\<close>

definition float_overflow :: "int \<Rightarrow> bool" where
  "float_overflow n \<longleftrightarrow> 2 ^ 1024 - 2 ^ 970 \<le> \<bar>n\<bar>"

definition int_to_fl :: "int \<Rightarrow> fl" where
  "int_to_fl n =
     (if float_overflow n then (if 0 < n then PInf else NInf) else Fin (real_of_int n))"

text \<open>
  What a text parses to: an integer (\<open>"3"\<close>) or a float (\<open>"3.5"\<close>, \<open>"inf"\<close>). The parser
  is library code and a parameter of the model, as above.
\<close>

datatype pynum = I int | F fl

type_synonym num_parser = "string \<Rightarrow> pynum option"

text \<open>
  The cells of an object column, and a column with its dtype. The values of an \<open>IntCol\<close>
  lie in the int64 range, those of a \<open>UIntCol\<close> in the uint64 range (\<open>col_ok\<close> below).
\<close>

datatype pyobj = PyInt int | PyFloat fl | PyStr string | PyNone

datatype column =
    IntCol "int list"
  | UIntCol "int list"
  | FloatCol "fl list"
  | BoolCol "bool list"
  | ObjCol "pyobj list"

type_synonym tframe = "(string \<times> column) list"

text \<open>
  The exceptions of the engine, and sequencing: the first exception ends the call.
\<close>

datatype error = KeyError string | OverflowError | TypeError

definition bind_err :: "error + 'a \<Rightarrow> ('a \<Rightarrow> error + 'b) \<Rightarrow> error + 'b" where
  "bind_err m f = (case m of Inl e \<Rightarrow> Inl e | Inr x \<Rightarrow> f x)"

text \<open>
  The length of a column, its values as floats (\<open>astype(float)\<close>: exact for integers,
  \<open>True\<close> is 1) and as integers.
\<close>

fun col_len :: "column \<Rightarrow> nat" where
  "col_len (IntCol xs) = length xs"
| "col_len (UIntCol xs) = length xs"
| "col_len (FloatCol xs) = length xs"
| "col_len (BoolCol xs) = length xs"
| "col_len (ObjCol xs) = length xs"

fun floats :: "column \<Rightarrow> fl list" where
  "floats (IntCol xs) = map (\<lambda>n. Fin (real_of_int n)) xs"
| "floats (UIntCol xs) = map (\<lambda>n. Fin (real_of_int n)) xs"
| "floats (FloatCol xs) = xs"
| "floats (BoolCol xs) = map (\<lambda>b. Fin (if b then 1 else 0)) xs"
| "floats (ObjCol xs) = []"

fun ints :: "column \<Rightarrow> int list" where
  "ints (IntCol xs) = xs"
| "ints (UIntCol xs) = xs"
| "ints (BoolCol xs) = map (\<lambda>b. if b then 1 else 0) xs"
| "ints (FloatCol xs) = []"
| "ints (ObjCol xs) = []"

text \<open>
  \<open>df[col]\<close> and \<open>df[col] = s\<close>.
\<close>

definition dt_getitem :: "tframe \<Rightarrow> string \<Rightarrow> error + column" where
  "dt_getitem df col = (case map_of df col of None \<Rightarrow> Inl (KeyError col) | Some s \<Rightarrow> Inr s)"

definition dt_setitem :: "tframe \<Rightarrow> string \<Rightarrow> column \<Rightarrow> tframe" where
  "dt_setitem df col s = AList.update col s df"

text \<open>
  \<open>pd.to_numeric(s, errors="coerce")\<close>. A column of a numeric dtype (bool included) is
  returned as it is. An object column is converted cell by cell: \<open>None\<close> and a text that
  does not parse become NaN, and an integer object that has no float raises OverflowError,
  which \<open>errors="coerce"\<close> does not catch. The dtype of the result is int64 when every cell
  is an integer of the int64 range, uint64 when every cell is an integer of the uint64
  range, and float64 otherwise.
\<close>

fun obj_to_num :: "num_parser \<Rightarrow> pyobj \<Rightarrow> pynum" where
  "obj_to_num p (PyInt n) = I n"
| "obj_to_num p (PyFloat x) = F x"
| "obj_to_num p (PyStr t) = (case p t of Some v \<Rightarrow> v | None \<Rightarrow> F NaN)"
| "obj_to_num p PyNone = F NaN"

fun is_int_in :: "int \<Rightarrow> int \<Rightarrow> pynum \<Rightarrow> bool" where
  "is_int_in lo hi (I n) = (lo \<le> n \<and> n < hi)"
| "is_int_in lo hi (F x) = False"

fun the_int :: "pynum \<Rightarrow> int" where
  "the_int (I n) = n"
| "the_int (F x) = 0"

fun num_to_fl :: "pynum \<Rightarrow> fl" where
  "num_to_fl (I n) = int_to_fl n"
| "num_to_fl (F x) = x"

fun raises_overflow :: "pyobj \<Rightarrow> bool" where
  "raises_overflow (PyInt n) = float_overflow n"
| "raises_overflow c = False"

fun dt_to_numeric :: "num_parser \<Rightarrow> column \<Rightarrow> error + column" where
  "dt_to_numeric p (ObjCol cs) =
     (if list_ex raises_overflow cs then Inl OverflowError
      else let ns = map (obj_to_num p) cs in
        if list_all (is_int_in (- (2 ^ 63)) (2 ^ 63)) ns then Inr (IntCol (map the_int ns))
        else if list_all (is_int_in 0 (2 ^ 64)) ns then Inr (UIntCol (map the_int ns))
        else Inr (FloatCol (map num_to_fl ns)))"
| "dt_to_numeric p c = Inr c"

text \<open>
  \<open>s.fillna(v)\<close> replaces NaN; an infinity is kept, and a column of integers or booleans
  has nothing to fill.
\<close>

fun fillna_fl :: "real \<Rightarrow> fl \<Rightarrow> fl" where
  "fillna_fl v NaN = Fin v"
| "fillna_fl v x = x"

fun dt_fillna :: "real \<Rightarrow> column \<Rightarrow> column" where
  "dt_fillna v (FloatCol xs) = FloatCol (map (fillna_fl v) xs)"
| "dt_fillna v c = c"

text \<open>
  \<open>s * w\<close> and \<open>s / w\<close> with a float scalar give a float64 column for every numeric dtype.
  Object columns do not occur after the coercion loop; arithmetic on them is reported as
  TypeError.
\<close>

fun col_mul :: "column \<Rightarrow> real \<Rightarrow> error + fl list" where
  "col_mul (ObjCol cs) w = Inl TypeError"
| "col_mul c w = Inr (map (\<lambda>x. fl_scale x w) (floats c))"

fun col_truediv :: "column \<Rightarrow> real \<Rightarrow> error + fl list" where
  "col_truediv (ObjCol cs) w = Inl TypeError"
| "col_truediv c w = Inr (map (\<lambda>x. fl_div x w) (floats c))"

text \<open>
  \<open>c - s\<close> with the Python integer \<open>c\<close> stays in the dtype of \<open>s\<close> (int64 for a bool
  column).
\<close>

fun col_rsub :: "int \<Rightarrow> column \<Rightarrow> error + column" where
  "col_rsub c (IntCol xs) = Inr (IntCol (map (\<lambda>n. wrap64 (c - n)) xs))"
| "col_rsub c (UIntCol xs) = Inr (UIntCol (map (\<lambda>n. wrapu64 (c - n)) xs))"
| "col_rsub c (BoolCol xs) = Inr (IntCol (map (\<lambda>b. wrap64 (c - (if b then 1 else 0))) xs))"
| "col_rsub c (FloatCol xs) = Inr (FloatCol (map (\<lambda>x. fl_sub (Fin (real_of_int c)) x) xs))"
| "col_rsub c (ObjCol xs) = Inl TypeError"

text \<open>
  \<open>s + t\<close> with the type promotion of numpy: two bool columns are combined by logical or;
  a float64 operand makes the sum float64; int64 with uint64 gives float64; otherwise the
  sum is an int64 or uint64 sum with wrap-around.
\<close>

fun col_add :: "column \<Rightarrow> column \<Rightarrow> error + column" where
  "col_add (ObjCol x) b = Inl TypeError"
| "col_add a (ObjCol y) = Inl TypeError"
| "col_add (BoolCol x) (BoolCol y) = Inr (BoolCol (map2 (\<or>) x y))"
| "col_add (FloatCol x) b = Inr (FloatCol (map2 fl_add x (floats b)))"
| "col_add a (FloatCol y) = Inr (FloatCol (map2 fl_add (floats a) y))"
| "col_add (IntCol x) (UIntCol y) = Inr (FloatCol (map2 (\<lambda>m n. Fin (real_of_int (m + n))) x y))"
| "col_add (UIntCol x) (IntCol y) = Inr (FloatCol (map2 (\<lambda>m n. Fin (real_of_int (m + n))) x y))"
| "col_add (UIntCol x) b = Inr (UIntCol (map2 (\<lambda>m n. wrapu64 (m + n)) x (ints b)))"
| "col_add a (UIntCol y) = Inr (UIntCol (map2 (\<lambda>m n. wrapu64 (m + n)) (ints a) y))"
| "col_add a b = Inr (IntCol (map2 (\<lambda>m n. wrap64 (m + n)) (ints a) (ints b)))"

text \<open>
  The coercion loop of lines 79 to 86.
\<close>

fun dt_coerce_columns :: "num_parser \<Rightarrow> string list \<Rightarrow> tframe \<Rightarrow> error + tframe" where
  "dt_coerce_columns p [] df = Inr df"
| "dt_coerce_columns p (col # cols) df =
     bind_err (dt_getitem df col) (\<lambda>s.
     bind_err (dt_to_numeric p s) (\<lambda>s'.
     dt_coerce_columns p cols (dt_setitem df col (dt_fillna 0 s'))))"

text \<open>
  The right-hand sides of lines 94 to 100 and of lines 104 to 109. The five products are
  float64 columns.
\<close>

definition priority_expr ::
  "tframe \<Rightarrow> real \<Rightarrow> real \<Rightarrow> real \<Rightarrow> real \<Rightarrow> real \<Rightarrow> real \<Rightarrow> error + fl list" where
  "priority_expr df w_value w_feas w_data w_change w_risk weights_sum =
     bind_err (dt_getitem df ''Business Value (1-5)'') (\<lambda>bv.
     bind_err (col_mul bv w_value) (\<lambda>t1.
     bind_err (dt_getitem df ''Technical Feasibility (1-5)'') (\<lambda>tf.
     bind_err (col_mul tf w_feas) (\<lambda>t2.
     bind_err (dt_getitem df ''Data Readiness (1-5)'') (\<lambda>dr.
     bind_err (col_mul dr w_data) (\<lambda>t3.
     bind_err (dt_getitem df ''Change Impact (1-5)'') (\<lambda>ci.
     bind_err (col_mul ci w_change) (\<lambda>t4.
     bind_err (dt_getitem df ''Risk (1-5)'') (\<lambda>rk.
     bind_err (col_mul rk w_risk) (\<lambda>t5.
       Inr (map (\<lambda>x. fl_div x weights_sum)
              (map2 fl_sub (map2 fl_sub (map2 fl_add (map2 fl_add t1 t2) t3) t4) t5))))))))))))"

definition readiness_expr :: "tframe \<Rightarrow> error + fl list" where
  "readiness_expr df =
     bind_err (dt_getitem df ''Technical Feasibility (1-5)'') (\<lambda>tf.
     bind_err (dt_getitem df ''Data Readiness (1-5)'') (\<lambda>dr.
     bind_err (col_add tf dr) (\<lambda>r1.
     bind_err (dt_getitem df ''Change Impact (1-5)'') (\<lambda>ci.
     bind_err (col_rsub 5 ci) (\<lambda>c1.
     bind_err (col_add r1 c1) (\<lambda>r2.
     bind_err (dt_getitem df ''Risk (1-5)'') (\<lambda>rk.
     bind_err (col_rsub 5 rk) (\<lambda>c2.
     bind_err (col_add r2 c2) (\<lambda>r3.
       col_truediv r3 4)))))))))"

text \<open>
  \<open>compute_scores\<close> on typed columns. The frame is a value here: the copy of line 76 is
  the frame itself, and sharing is the subject of the heap model above.
\<close>

definition dt_compute_scores ::
  "num_parser \<Rightarrow> tframe \<Rightarrow> real \<Rightarrow> real \<Rightarrow> real \<Rightarrow> real \<Rightarrow> real \<Rightarrow> error + tframe" where
  "dt_compute_scores p df0 w_value w_feas w_data w_change w_risk =
     bind_err (dt_coerce_columns p rating_columns df0) (\<lambda>df.
       let weights_sum = w_value + w_feas + w_data + w_change + w_risk;
           weights_sum = (if weights_sum = 0 then 1 else weights_sum)
       in
     bind_err (priority_expr df w_value w_feas w_data w_change w_risk weights_sum) (\<lambda>ps.
       let df = dt_setitem df ''Priority Score'' (FloatCol ps) in
     bind_err (readiness_expr df) (\<lambda>rs.
       Inr (dt_setitem df ''Readiness Score'' (FloatCol rs)))))"

text \<open>
  Reading a result: a column of the returned frame (none when the call raised), the
  float value of a numeric cell, the number of rows, and the frames of the data model.
\<close>

fun result_col :: "error + tframe \<Rightarrow> string \<Rightarrow> column option" where
  "result_col (Inl e) col = None"
| "result_col (Inr df) col = map_of df col"

definition fl_at :: "tframe \<Rightarrow> nat \<Rightarrow> string \<Rightarrow> fl option" where
  "fl_at df i col =
     (case map_of df col of
        None \<Rightarrow> None
      | Some (ObjCol cs) \<Rightarrow> None
      | Some c \<Rightarrow> if i < col_len c then Some (floats c ! i) else None)"

definition dt_nrows :: "tframe \<Rightarrow> nat" where
  "dt_nrows df = (case df of [] \<Rightarrow> 0 | (c, s) # rest \<Rightarrow> col_len s)"

fun is_numeric :: "column \<Rightarrow> bool" where
  "is_numeric (ObjCol cs) = False"
| "is_numeric c = True"

fun col_ok :: "column \<Rightarrow> bool" where
  "col_ok (IntCol xs) = list_all (\<lambda>n. - (2 ^ 63) \<le> n \<and> n < 2 ^ 63) xs"
| "col_ok (UIntCol xs) = list_all (\<lambda>n. 0 \<le> n \<and> n < 2 ^ 64) xs"
| "col_ok c = True"

definition dt_frame_ok :: "tframe \<Rightarrow> bool" where
  "dt_frame_ok df \<longleftrightarrow>
     distinct (map fst df) \<and>
     list_all (\<lambda>(c, s). col_len s = dt_nrows df \<and> col_ok s) df \<and>
     list_all (\<lambda>col. col \<in> fst ` set df) rating_columns"

text \<open>
  A coerced rating that is a finite float, or an int64 of magnitude at most \<open>2 ^ 60\<close>,
  with its value.
\<close>

definition plain_at :: "tframe \<Rightarrow> nat \<Rightarrow> string \<Rightarrow> real \<Rightarrow> bool" where
  "plain_at df i col x =
     (case map_of df col of
        Some (FloatCol xs) \<Rightarrow> i < length xs \<and> xs ! i = Fin x
      | Some (IntCol xs) \<Rightarrow> i < length xs \<and> \<bar>xs ! i\<bar> \<le> 2 ^ 60 \<and> x = real_of_int (xs ! i)
      | _ \<Rightarrow> False)"

fun is_fin :: "fl \<Rightarrow> bool" where
  "is_fin (Fin x) = True"
| "is_fin x = False"

text \<open>
  Example inputs: a table with an infinite rating, as \<open>pd.read_csv\<close> reads the text \<open>inf\<close>;
  a table whose Business Value is the Python integer \<open>2 ^ 1024\<close>; a table of int64 ratings
  with two ratings \<open>2 ^ 62\<close>; and a parser that reads no text.
\<close>

definition no_parse :: num_parser where
  "no_parse t = None"

definition inf_data :: tframe where
  "inf_data =
     [(''Use Case'', ObjCol [PyStr ''Intelligent document triage for claims'', PyStr ''Member services AI copilot'']),
      (''Business Value (1-5)'', FloatCol [PInf, Fin 4]),
      (''Technical Feasibility (1-5)'', IntCol [3, 4]),
      (''Data Readiness (1-5)'', IntCol [3, 4]),
      (''Change Impact (1-5)'', IntCol [4, 3]),
      (''Risk (1-5)'', IntCol [3, 3]),
      (''Owner'', ObjCol [PyStr ''Operations'', PyStr ''Customer Service'']),
      (''Notes'', ObjCol [PyStr ''High cost savings; requires integration with core systems.'', PyNone])]"

definition big_int_data :: tframe where
  "big_int_data =
     [(''Use Case'', ObjCol [PyStr ''Intelligent document triage for claims'']),
      (''Business Value (1-5)'', ObjCol [PyInt (2 ^ 1024)]),
      (''Technical Feasibility (1-5)'', IntCol [3]),
      (''Data Readiness (1-5)'', IntCol [3]),
      (''Change Impact (1-5)'', IntCol [4]),
      (''Risk (1-5)'', IntCol [3]),
      (''Owner'', ObjCol [PyStr ''Operations'']),
      (''Notes'', ObjCol [PyStr ''High cost savings; requires integration with core systems.''])]"


text \<open>
  The frames of the model above as typed frames: every column an object column, a number
  a Python float.
\<close>

fun obj_of :: "cell \<Rightarrow> pyobj" where
  "obj_of (Num x) = PyFloat (Fin x)"
| "obj_of (Text t) = PyStr t"
| "obj_of NA = PyNone"

definition object_frame :: "dataframe \<Rightarrow> tframe" where
  "object_frame df = map (\<lambda>(c, s). (c, ObjCol (map obj_of s))) df"

definition float_parser :: "parser \<Rightarrow> num_parser" where
  "float_parser p t = map_option (\<lambda>x. F (Fin x)) (p t)"

text \<open>
  An auxiliary bound for the proofs: an int64 of magnitude at most \<open>k\<close>, or a finite float.
\<close>

definition bnd :: "int \<Rightarrow> column \<Rightarrow> nat \<Rightarrow> real \<Rightarrow> bool" where
  "bnd k c i v =
     (case c of
        IntCol xs \<Rightarrow> i < length xs \<and> \<bar>xs ! i\<bar> \<le> k \<and> v = real_of_int (xs ! i)
      | FloatCol xs \<Rightarrow> i < length xs \<and> xs ! i = Fin v
      | _ \<Rightarrow> False)"

section \<open>Auxiliary lemmas\<close>

lemma coerce_cell_num: "fillna_cell 0 (to_numeric_cell p c) = Num (num p c)"
  by (cases c) (auto simp: num_def split: option.splits)

lemma coerce_series_num:
  "length s = n \<Longrightarrow> fillna 0 (to_numeric p s) = map (\<lambda>i. Num (num p (s ! i))) [0..<n]"
  by (auto simp: fillna_def to_numeric_def coerce_cell_num intro!: nth_equalityI)

lemma length_coerce_series [simp]: "length (fillna 0 (to_numeric p s)) = length s"
  by (simp add: fillna_def to_numeric_def)

lemma those_map_Some: "those (map (\<lambda>x. Some (f x)) xs) = Some (map f xs)"
  by (induction xs) auto

lemma series_mul_num:
  "series_mul (map (\<lambda>i. Num (f i)) xs) w = Some (map (\<lambda>i. Num (f i * w)) xs)"
  by (simp add: series_mul_def o_def those_map_Some)

lemma series_rsub_num:
  "series_rsub c (map (\<lambda>i. Num (f i)) xs) = Some (map (\<lambda>i. Num (c - f i)) xs)"
  by (simp add: series_rsub_def o_def those_map_Some)

lemma series_truediv_num:
  "w \<noteq> 0 \<Longrightarrow> series_truediv (map (\<lambda>i. Num (f i)) xs) w = Some (map (\<lambda>i. Num (f i / w)) xs)"
  by (simp add: series_truediv_def o_def those_map_Some)

lemma zip_map_same: "zip (map f xs) (map g xs) = map (\<lambda>x. (f x, g x)) xs"
  by (induction xs) auto

lemma series_add_num:
  "series_add (map (\<lambda>i. Num (f i)) xs) (map (\<lambda>i. Num (g i)) xs) = Some (map (\<lambda>i. Num (f i + g i)) xs)"
  by (simp add: series_add_def zip_map_same o_def those_map_Some)

lemma series_sub_num:
  "series_sub (map (\<lambda>i. Num (f i)) xs) (map (\<lambda>i. Num (g i)) xs) = Some (map (\<lambda>i. Num (f i - g i)) xs)"
  by (simp add: series_sub_def zip_map_same o_def those_map_Some)

lemma update_as_map:
  "distinct (map fst df) \<Longrightarrow> map_of df col = Some s \<Longrightarrow>
   AList.update col v df = map (\<lambda>(c, t). (c, if c = col then v else t)) df"
proof (induction df)
  case Nil
  then show ?case by simp
next
  case (Cons a df)
  obtain c t where a: "a = (c, t)" by (cases a)
  show ?case
  proof (cases "c = col")
    case True
    have "col \<notin> fst ` set df" using Cons.prems(1) a True by auto
    then have "map (\<lambda>(c, t). (c, if c = col then v else t)) df = df"
      by (intro map_idI) (auto simp: rev_image_eqI)
    then show ?thesis using a True by simp
  next
    case False
    then show ?thesis using Cons a by auto
  qed
qed

lemma frame_ok_parts:
  "frame_ok df \<longleftrightarrow> distinct (map fst df) \<and> cols_ok df \<and> set rating_columns \<subseteq> fst ` set df"
  by (auto simp: frame_ok_def cols_ok_def list_all_iff)

lemma cols_ok_length: "cols_ok df \<Longrightarrow> map_of df col = Some s \<Longrightarrow> length s = nrows df"
  by (auto simp: cols_ok_def list_all_iff dest!: map_of_SomeD)

lemma nrows_map_same_length:
  "(\<And>c s. (c, s) \<in> set df \<Longrightarrow> length (g c s) = length s) \<Longrightarrow>
   nrows (map (\<lambda>(c, s). (c, g c s)) df) = nrows df"
  by (cases df) (auto simp: nrows_def)

lemma cols_ok_map_same_length:
  assumes "\<And>c s. (c, s) \<in> set df \<Longrightarrow> length (g c s) = length s" "cols_ok df"
  shows "cols_ok (map (\<lambda>(c, s). (c, g c s)) df)"
  using assms nrows_map_same_length[of df g]
  by (auto simp: cols_ok_def list_all_iff)

lemma map_fst_map_same: "map fst (map (\<lambda>(c, s). (c, g c s)) df) = map fst df"
  by (induction df) auto

lemma lookup_unique:
  "distinct (map fst d) \<Longrightarrow> map_of d col = Some s \<Longrightarrow> (col, t) \<in> set d \<Longrightarrow> t = s"
  by (metis map_of_is_SomeI option.inject)

lemma coerce_columns_heap:
  assumes "r < length h" "distinct (map fst (h ! r))" "cols_ok (h ! r)"
    "distinct cols" "set cols \<subseteq> fst ` set (h ! r)"
  shows "coerce_columns p cols r h =
     Some (h[r := map (\<lambda>(c, s). (c, if c \<in> set cols then fillna 0 (to_numeric p s) else s)) (h ! r)])"
  using assms
proof (induction cols arbitrary: h)
  case Nil
  have "map (\<lambda>(c, s). (c, s)) (h ! r) = h ! r" by (intro map_idI) auto
  then show ?case by simp
next
  case (Cons col cols)
  let ?d = "h ! r"
  let ?F = "\<lambda>s. fillna 0 (to_numeric p s)"
  from Cons.prems obtain s where s: "map_of ?d col = Some s"
    by (metis list.set_intros(1) subsetD map_of_eq_None_iff not_None_eq)
  have len: "length s = nrows ?d" using cols_ok_length Cons.prems(3) s by blast
  let ?d1 = "map (\<lambda>(c, t). (c, if c = col then ?F s else t)) ?d"
  have upd: "AList.update col (?F s) ?d = ?d1"
    by (rule update_as_map[OF Cons.prems(2) s])
  let ?h1 = "h[r := ?d1]"
  have get: "getitem h r col = Some s" using Cons.prems(1) s by (simp add: getitem_def)
  have set: "setitem h r col (?F s) = Some ?h1"
    using Cons.prems(1) len upd by (simp add: setitem_def)
  have h1r: "?h1 ! r = ?d1" using Cons.prems(1) by simp
  have lens: "\<And>c t. (c, t) \<in> set ?d \<Longrightarrow> length (if c = col then ?F s else t) = length t"
    by (auto dest: lookup_unique[OF Cons.prems(2) s])
  have keys: "map fst ?d1 = map fst ?d"
    by (rule map_fst_map_same[of "\<lambda>c t. if c = col then ?F s else t"])
  have ok1: "cols_ok ?d1"
    by (rule cols_ok_map_same_length[of ?d "\<lambda>c t. if c = col then ?F s else t"])
       (use lens Cons.prems(3) in auto)
  have IH: "coerce_columns p cols r ?h1 =
     Some (?h1[r := map (\<lambda>(c, s). (c, if c \<in> set cols then ?F s else s)) (?h1 ! r)])"
  proof (rule Cons.IH)
    show "r < length ?h1" using Cons.prems(1) by simp
    show "distinct (map fst (?h1 ! r))" unfolding h1r keys by (rule Cons.prems(2))
    show "cols_ok (?h1 ! r)" unfolding h1r by (rule ok1)
    show "distinct cols" using Cons.prems(4) by simp
    have "fst ` set ?d1 = fst ` set ?d" using keys by (metis list.set_map)
    then show "set cols \<subseteq> fst ` set (?h1 ! r)" unfolding h1r using Cons.prems(5) by simp
  qed
  have comp: "map (\<lambda>(c, s). (c, if c \<in> set cols then ?F s else s)) ?d1
      = map (\<lambda>(c, s). (c, if c \<in> set (col # cols) then ?F s else s)) ?d"
    using Cons.prems(4) by (auto dest: lookup_unique[OF Cons.prems(2) s])
  have "coerce_columns p (col # cols) r h = coerce_columns p cols r ?h1"
    using get set by simp
  also have "\<dots> = Some (?h1[r := map (\<lambda>(c, s). (c, if c \<in> set cols then ?F s else s)) ?d1])"
    using IH unfolding h1r .
  also have "?h1[r := map (\<lambda>(c, s). (c, if c \<in> set cols then ?F s else s)) ?d1]
      = h[r := map (\<lambda>(c, s). (c, if c \<in> set (col # cols) then ?F s else s)) ?d]"
    unfolding comp by (rule list_update_overwrite)
  finally show ?case .
qed

lemma getitem_last: "getitem (h @ [M]) (length h) col = map_of M col"
  by (simp add: getitem_def)

lemma setitem_last:
  "length s = nrows M \<Longrightarrow> setitem (h @ [M]) (length h) col s = Some (h @ [AList.update col s M])"
  by (simp add: setitem_def)

lemma nrows_update:
  "length s = nrows M \<Longrightarrow> nrows (AList.update col s M) = nrows M"
  by (cases M) (auto simp: nrows_def)

lemma nrows_coerced: "nrows (coerced p d) = nrows d"
  unfolding coerced_def
  by (rule nrows_map_same_length[of d "\<lambda>c s. if c \<in> set rating_columns then fillna 0 (to_numeric p s) else s"]) simp

lemma map_of_coerced:
  "map_of (coerced p d) c =
     map_option (\<lambda>s. if c \<in> set rating_columns then fillna 0 (to_numeric p s) else s) (map_of d c)"
  unfolding coerced_def by (induction d) auto

lemma rating_col_present:
  assumes "frame_ok d" "col \<in> set rating_columns"
  obtains s where "map_of d col = Some s" "length s = nrows d"
proof -
  from assms have "col \<in> fst ` set d" by (auto simp: frame_ok_parts)
  then obtain s where s: "map_of d col = Some s"
    by (metis map_of_eq_None_iff not_None_eq)
  moreover have "length s = nrows d"
    using assms(1) s cols_ok_length by (auto simp: frame_ok_parts)
  ultimately show ?thesis using that by blast
qed

lemma map_of_coerced_rating:
  assumes "frame_ok d" "col \<in> set rating_columns"
  shows "map_of (coerced p d) col = Some (map (\<lambda>i. Num (col_num p d col i)) [0..<nrows d])"
proof -
  obtain s where s: "map_of d col = Some s" "length s = nrows d"
    using rating_col_present[OF assms] .
  show ?thesis
    using assms(2) s by (simp add: map_of_coerced coerce_series_num[OF s(2)] col_num_def)
qed

lemma copy_coerce:
  assumes "r < length h" "frame_ok (h ! r)"
  shows "coerce_columns p rating_columns (length h) (h @ [h ! r]) = Some (h @ [coerced p (h ! r)])"
proof -
  let ?h = "h @ [h ! r]"
  have nth: "?h ! length h = h ! r" by simp
  have "coerce_columns p rating_columns (length h) ?h =
     Some (?h[length h := map (\<lambda>(c, s). (c, if c \<in> set rating_columns then fillna 0 (to_numeric p s) else s)) (?h ! length h)])"
  proof (rule coerce_columns_heap)
    show "length h < length ?h" by simp
    show "distinct (map fst (?h ! length h))" "cols_ok (?h ! length h)"
      "set rating_columns \<subseteq> fst ` set (?h ! length h)"
      unfolding nth using assms(2) by (simp_all add: frame_ok_parts)
    show "distinct rating_columns" by (simp add: rating_columns_def)
  qed
  then show ?thesis unfolding nth by (simp add: coerced_def)
qed

lemma in_rating_columns:
  "''Business Value (1-5)'' \<in> set rating_columns"
  "''Technical Feasibility (1-5)'' \<in> set rating_columns"
  "''Data Readiness (1-5)'' \<in> set rating_columns"
  "''Change Impact (1-5)'' \<in> set rating_columns"
  "''Risk (1-5)'' \<in> set rating_columns"
  by (simp_all add: rating_columns_def)

lemma compute_scores_closed:
  assumes "r < length h" "frame_ok (h ! r)"
  shows "compute_scores p h r w_value w_feas w_data w_change w_risk =
     Some (length h, h @ [scored_frame p (h ! r) w_value w_feas w_data w_change w_risk])"
proof -
  let ?d = "h ! r"
  let ?M = "coerced p ?d"
  note rat = map_of_coerced_rating[OF assms(2) in_rating_columns(1), of p]
    map_of_coerced_rating[OF assms(2) in_rating_columns(2), of p]
    map_of_coerced_rating[OF assms(2) in_rating_columns(3), of p]
    map_of_coerced_rating[OF assms(2) in_rating_columns(4), of p]
    map_of_coerced_rating[OF assms(2) in_rating_columns(5), of p]
  have ws: "(if w_value + w_feas + w_data + w_change + w_risk = 0 then 1 else w_value + w_feas + w_data + w_change + w_risk) \<noteq> 0" by simp
  have len_p: "length (priority_col p ?d w_value w_feas w_data w_change w_risk) = nrows ?M"
    by (simp add: priority_col_def nrows_coerced)
  have len_r: "length (readiness_col p ?d) = nrows (AList.update ''Priority Score'' (priority_col p ?d w_value w_feas w_data w_change w_risk) ?M)"
    by (simp add: readiness_col_def nrows_coerced nrows_update[OF len_p])
  show ?thesis
    unfolding compute_scores_def
    using assms(1)
    by (simp add: copy_def copy_coerce[OF assms] getitem_last rat Let_def
        series_mul_num series_add_num series_sub_num series_rsub_num series_truediv_num
        setitem_last nrows_update nrows_coerced update_conv'
        scored_frame_def priority_col_def readiness_col_def)
qed

lemma scored_df_closed:
  assumes "frame_ok df"
  shows "scored_df p df w_value w_feas w_data w_change w_risk =
     Some (scored_frame p df w_value w_feas w_data w_change w_risk)"
  using compute_scores_closed[of 0 "[df]" p w_value w_feas w_data w_change w_risk] assms
  by (simp add: scored_df_def)

lemma map_of_scored_priority:
  "map_of (scored_frame p d w_value w_feas w_data w_change w_risk) ''Priority Score'' =
     Some (priority_col p d w_value w_feas w_data w_change w_risk)"
  by (simp add: scored_frame_def update_conv')

lemma map_of_scored_readiness:
  "map_of (scored_frame p d w_value w_feas w_data w_change w_risk) ''Readiness Score'' =
     Some (readiness_col p d)"
  by (simp add: scored_frame_def update_conv')


lemma cell_at_priority:
  "i < nrows d \<Longrightarrow>
   cell_at (scored_frame p d w_value w_feas w_data w_change w_risk) i ''Priority Score'' =
     Some (priority_col p d w_value w_feas w_data w_change w_risk ! i)"
  by (simp add: cell_at_def map_of_scored_priority) (simp add: priority_col_def)

lemma cell_at_readiness:
  "i < nrows d \<Longrightarrow>
   cell_at (scored_frame p d w_value w_feas w_data w_change w_risk) i ''Readiness Score'' =
     Some (readiness_col p d ! i)"
  by (simp add: cell_at_def map_of_scored_readiness) (simp add: readiness_col_def)

lemma rating_col_num:
  assumes "frame_ok d" "col \<in> set rating_columns" "i < nrows d"
  shows "rating p d i col = Some (col_num p d col i)"
proof -
  obtain s where s: "map_of d col = Some s" "length s = nrows d"
    using rating_col_present[OF assms(1,2)] .
  show ?thesis using s assms(3)
    by (simp add: rating_def cell_at_def coerce_cell_num col_num_def)
qed

lemmas ratings_num =
  rating_col_num[OF _ in_rating_columns(1)] rating_col_num[OF _ in_rating_columns(2)]
  rating_col_num[OF _ in_rating_columns(3)] rating_col_num[OF _ in_rating_columns(4)]
  rating_col_num[OF _ in_rating_columns(5)]














lemma take_length_append: "take (length xs) (xs @ ys) = xs"
  by simp

lemma missing_column_fails:
  "scored_df p [] w_value w_feas w_data w_change w_risk = None"
  by (simp add: scored_df_def compute_scores_def copy_def rating_columns_def getitem_def)

lemma bind_err_simps [simp]:
  "bind_err (Inl e) f = Inl e" "bind_err (Inr x) f = f x"
  by (simp_all add: bind_err_def)

lemma bind_err_Inr_iff:
  "bind_err m f = Inr y \<longleftrightarrow> (\<exists>x. m = Inr x \<and> f x = Inr y)"
  by (cases m) auto

lemma dt_getitem_Inr_iff [simp]: "dt_getitem df col = Inr s \<longleftrightarrow> map_of df col = Some s"
  by (auto simp: dt_getitem_def split: option.splits)

lemma dt_getitem_Some: "map_of df col = Some s \<Longrightarrow> dt_getitem df col = Inr s"
  by simp

lemma dt_to_numeric_numeric:
  "dt_to_numeric p s = Inr s' \<Longrightarrow> is_numeric s' \<and> col_len s' = col_len s"
  by (cases s) (auto simp: Let_def split: if_splits)

lemma dt_fillna_numeric [simp]:
  "is_numeric (dt_fillna v c) = is_numeric c" "col_len (dt_fillna v c) = col_len c"
  by (cases c; simp)+

lemma length_floats: "is_numeric c \<Longrightarrow> length (floats c) = col_len c"
  by (cases c) auto

lemma dt_coerce_columns_char:
  assumes "distinct cols" "dt_coerce_columns p cols df = Inr d"
  shows "(\<forall>k. k \<notin> set cols \<longrightarrow> map_of d k = map_of df k) \<and>
         (\<forall>k\<in>set cols. \<exists>s s'. map_of df k = Some s \<and> dt_to_numeric p s = Inr s' \<and>
              map_of d k = Some (dt_fillna 0 s'))"
  using assms
proof (induction cols arbitrary: df)
  case Nil
  then show ?case by simp
next
  case (Cons col cols)
  from Cons.prems(2) obtain s s' where s: "map_of df col = Some s"
    and s': "dt_to_numeric p s = Inr s'"
    and rest: "dt_coerce_columns p cols (dt_setitem df col (dt_fillna 0 s')) = Inr d"
    by (auto simp: bind_err_Inr_iff)
  let ?df1 = "dt_setitem df col (dt_fillna 0 s')"
  have d1: "map_of ?df1 = (map_of df)(col \<mapsto> dt_fillna 0 s')"
    by (simp add: dt_setitem_def update_conv')
  from Cons.prems(1) have dist: "distinct cols" and notin: "col \<notin> set cols" by simp_all
  note IH = Cons.IH[OF dist rest]
  have a: "\<forall>k. k \<notin> set (col # cols) \<longrightarrow> map_of d k = map_of df k"
    using IH d1 by auto
  have b: "\<forall>k\<in>set (col # cols). \<exists>s s'. map_of df k = Some s \<and> dt_to_numeric p s = Inr s' \<and>
              map_of d k = Some (dt_fillna 0 s')"
  proof
    fix k assume k: "k \<in> set (col # cols)"
    show "\<exists>s s'. map_of df k = Some s \<and> dt_to_numeric p s = Inr s' \<and>
              map_of d k = Some (dt_fillna 0 s')"
    proof (cases "k = col")
      case True
      with IH notin d1 have "map_of d k = Some (dt_fillna 0 s')" by simp
      with True s s' show ?thesis by blast
    next
      case False
      with k have "k \<in> set cols" by simp
      with IH obtain t t' where "map_of ?df1 k = Some t" "dt_to_numeric p t = Inr t'"
        "map_of d k = Some (dt_fillna 0 t')" by blast
      with False d1 show ?thesis by auto
    qed
  qed
  from a b show ?case by blast
qed

lemma coerced_rating_numeric:
  assumes "dt_coerce_columns p rating_columns df = Inr d" "col \<in> set rating_columns"
  obtains c where "map_of d col = Some c" "is_numeric c"
    "\<And>s. map_of df col = Some s \<Longrightarrow> col_len c = col_len s"
proof -
  have "distinct rating_columns" by (simp add: rating_columns_def)
  from dt_coerce_columns_char[OF this assms(1)] assms(2)
  obtain s s' where s: "map_of df col = Some s" "dt_to_numeric p s = Inr s'"
    "map_of d col = Some (dt_fillna 0 s')" by blast
  from dt_to_numeric_numeric[OF s(2)] have "is_numeric (dt_fillna 0 s')"
    "col_len (dt_fillna 0 s') = col_len s" by simp_all
  with s(1,3) that show ?thesis by auto
qed

lemma col_mul_numeric:
  "is_numeric c \<Longrightarrow> col_mul c w = Inr (map (\<lambda>x. fl_scale x w) (floats c))"
  by (cases c) auto

lemma col_truediv_numeric:
  "is_numeric c \<Longrightarrow> col_truediv c w = Inr (map (\<lambda>x. fl_div x w) (floats c))"
  by (cases c) auto

lemma col_rsub_numeric:
  "is_numeric c \<Longrightarrow> \<exists>c'. col_rsub k c = Inr c' \<and> is_numeric c'"
  by (cases c) auto

lemma col_add_numeric:
  "is_numeric a \<Longrightarrow> is_numeric b \<Longrightarrow> \<exists>c. col_add a b = Inr c \<and> is_numeric c"
  by (cases a; cases b) auto

lemma priority_expr_numeric:
  assumes "map_of d ''Business Value (1-5)'' = Some bv" "is_numeric bv"
    "map_of d ''Technical Feasibility (1-5)'' = Some tf" "is_numeric tf"
    "map_of d ''Data Readiness (1-5)'' = Some dr" "is_numeric dr"
    "map_of d ''Change Impact (1-5)'' = Some ci" "is_numeric ci"
    "map_of d ''Risk (1-5)'' = Some rk" "is_numeric rk"
  shows "priority_expr d w_value w_feas w_data w_change w_risk ws =
     Inr (map (\<lambda>x. fl_div x ws)
            (map2 fl_sub (map2 fl_sub (map2 fl_add (map2 fl_add
               (map (\<lambda>x. fl_scale x w_value) (floats bv))
               (map (\<lambda>x. fl_scale x w_feas) (floats tf)))
               (map (\<lambda>x. fl_scale x w_data) (floats dr)))
               (map (\<lambda>x. fl_scale x w_change) (floats ci)))
               (map (\<lambda>x. fl_scale x w_risk) (floats rk))))"
  using assms by (simp add: priority_expr_def dt_getitem_Some col_mul_numeric)

lemma readiness_expr_numeric:
  assumes "map_of d ''Technical Feasibility (1-5)'' = Some tf" "is_numeric tf"
    "map_of d ''Data Readiness (1-5)'' = Some dr" "is_numeric dr"
    "map_of d ''Change Impact (1-5)'' = Some ci" "is_numeric ci"
    "map_of d ''Risk (1-5)'' = Some rk" "is_numeric rk"
  shows "\<exists>rs. readiness_expr d = Inr rs"
proof -
  obtain r1 where r1: "col_add tf dr = Inr r1" "is_numeric r1"
    using col_add_numeric[OF assms(2,4)] by blast
  obtain c1 where c1: "col_rsub 5 ci = Inr c1" "is_numeric c1"
    using col_rsub_numeric[OF assms(6)] by blast
  obtain r2 where r2: "col_add r1 c1 = Inr r2" "is_numeric r2"
    using col_add_numeric[OF r1(2) c1(2)] by blast
  obtain c2 where c2: "col_rsub 5 rk = Inr c2" "is_numeric c2"
    using col_rsub_numeric[OF assms(8)] by blast
  obtain r3 where r3: "col_add r2 c2 = Inr r3" "is_numeric r3"
    using col_add_numeric[OF r2(2) c2(2)] by blast
  show ?thesis
    using assms(1,3,5,7) r1 c1 r2 c2 r3
    by (simp add: readiness_expr_def dt_getitem_Some col_truediv_numeric)
qed

lemma readiness_expr_frame:
  "readiness_expr (dt_setitem d ''Priority Score'' c) = readiness_expr d"
  by (simp add: readiness_expr_def dt_getitem_def dt_setitem_def update_conv')

lemma dt_compute_scores_closed:
  assumes "dt_coerce_columns p rating_columns df = Inr d"
  shows "\<exists>ps rs.
     priority_expr d w_value w_feas w_data w_change w_risk
       (if w_value + w_feas + w_data + w_change + w_risk = 0 then 1
        else w_value + w_feas + w_data + w_change + w_risk) = Inr ps \<and>
     readiness_expr d = Inr rs \<and>
     dt_compute_scores p df w_value w_feas w_data w_change w_risk =
       Inr (dt_setitem (dt_setitem d ''Priority Score'' (FloatCol ps))
              ''Readiness Score'' (FloatCol rs))"
proof -
  obtain bv where bv: "map_of d ''Business Value (1-5)'' = Some bv" "is_numeric bv"
    using coerced_rating_numeric[OF assms in_rating_columns(1)] by blast
  obtain tf where tf: "map_of d ''Technical Feasibility (1-5)'' = Some tf" "is_numeric tf"
    using coerced_rating_numeric[OF assms in_rating_columns(2)] by blast
  obtain dr where dr: "map_of d ''Data Readiness (1-5)'' = Some dr" "is_numeric dr"
    using coerced_rating_numeric[OF assms in_rating_columns(3)] by blast
  obtain ci where ci: "map_of d ''Change Impact (1-5)'' = Some ci" "is_numeric ci"
    using coerced_rating_numeric[OF assms in_rating_columns(4)] by blast
  obtain rk where rk: "map_of d ''Risk (1-5)'' = Some rk" "is_numeric rk"
    using coerced_rating_numeric[OF assms in_rating_columns(5)] by blast
  obtain rs where rs: "readiness_expr d = Inr rs"
    using readiness_expr_numeric[OF tf dr ci rk] by blast
  show ?thesis
    using assms rs priority_expr_numeric[OF bv tf dr ci rk]
    by (simp add: dt_compute_scores_def Let_def readiness_expr_frame)
qed

lemma dt_frame_ok_len:
  "dt_frame_ok df \<Longrightarrow> map_of df col = Some s \<Longrightarrow> col_len s = dt_nrows df"
  by (auto simp: dt_frame_ok_def list_all_iff dest!: map_of_SomeD)

lemma coerced_rating_col:
  assumes "dt_frame_ok df" "dt_coerce_columns p rating_columns df = Inr d"
    "col \<in> set rating_columns"
  obtains c where "map_of d col = Some c" "is_numeric c" "col_len c = dt_nrows df"
proof -
  have "distinct rating_columns" by (simp add: rating_columns_def)
  from dt_coerce_columns_char[OF this assms(2)] assms(3)
  obtain s s' where s: "map_of df col = Some s" "dt_to_numeric p s = Inr s'"
    "map_of d col = Some (dt_fillna 0 s')" by blast
  from dt_to_numeric_numeric[OF s(2)] dt_frame_ok_len[OF assms(1) s(1)]
  have "is_numeric (dt_fillna 0 s')" "col_len (dt_fillna 0 s') = dt_nrows df" by simp_all
  with s(3) that show ?thesis by blast
qed

lemma fl_at_numeric:
  "map_of df col = Some c \<Longrightarrow> is_numeric c \<Longrightarrow> i < col_len c \<Longrightarrow>
   fl_at df i col = Some (floats c ! i)"
  by (cases c) (auto simp: fl_at_def)

lemma fl_at_FloatCol:
  "map_of df col = Some (FloatCol xs) \<Longrightarrow> i < length xs \<Longrightarrow> fl_at df i col = Some (xs ! i)"
  by (simp add: fl_at_def)

lemma map_of_scored_dt:
  "map_of (dt_setitem (dt_setitem d ''Priority Score'' a) ''Readiness Score'' b) =
     (map_of d)(''Priority Score'' \<mapsto> a, ''Readiness Score'' \<mapsto> b)"
  by (simp add: dt_setitem_def update_conv')

lemma is_fin_iff: "is_fin x \<longleftrightarrow> (\<exists>r. x = Fin r)"
  by (cases x) auto

lemma fl_scale_zero: "fl_scale x 0 = (if is_fin x then Fin 0 else NaN)"
  by (cases x) auto

lemma zero_weight_row:
  "fl_div (fl_sub (fl_sub (fl_add (fl_add (fl_scale a 0) (fl_scale b 0)) (fl_scale c 0))
      (fl_scale d 0)) (fl_scale e 0)) 1
   = (if is_fin a \<and> is_fin b \<and> is_fin c \<and> is_fin d \<and> is_fin e then Fin 0 else NaN)"
  by (simp add: fl_scale_zero fl_sub_def)

lemma wrap64_id: "- (2 ^ 63) \<le> n \<Longrightarrow> n < 2 ^ 63 \<Longrightarrow> wrap64 n = n"
  by (simp add: wrap64_def)

lemma bnd_add:
  assumes "bnd k a i u" "bnd k' b i v" "k + k' < 2 ^ 63"
  shows "\<exists>c. col_add a b = Inr c \<and> bnd (k + k') c i (u + v)"
proof (cases a)
  case (IntCol xs)
  show ?thesis
  proof (cases b)
    case (IntCol ys)
    have "\<bar>xs ! i + ys ! i\<bar> \<le> k + k'"
      using assms(1,2) \<open>a = IntCol xs\<close> IntCol by (auto simp: bnd_def)
    then have "wrap64 (xs ! i + ys ! i) = xs ! i + ys ! i"
      using assms(3) by (intro wrap64_id) auto
    then show ?thesis
      using assms(1,2) \<open>a = IntCol xs\<close> IntCol by (auto simp: bnd_def)
  next
    case (FloatCol ys)
    then show ?thesis using assms(1,2) \<open>a = IntCol xs\<close> by (auto simp: bnd_def)
  qed (use assms(2) in \<open>auto simp: bnd_def\<close>)
next
  case (FloatCol xs)
  then show ?thesis using assms(1,2) by (cases b) (auto simp: bnd_def)
qed (use assms(1) in \<open>auto simp: bnd_def\<close>)

lemma bnd_rsub:
  assumes "bnd k a i u" "k + 5 < 2 ^ 63"
  shows "\<exists>c. col_rsub 5 a = Inr c \<and> bnd (k + 5) c i (5 - u)"
proof (cases a)
  case (IntCol xs)
  have "\<bar>5 - xs ! i\<bar> \<le> k + 5"
    using assms(1) IntCol by (auto simp: bnd_def)
  then have "wrap64 (5 - xs ! i) = 5 - xs ! i"
    using assms(2) by (intro wrap64_id) auto
  then show ?thesis using assms(1) IntCol by (auto simp: bnd_def)
next
  case (FloatCol xs)
  then show ?thesis using assms(1) by (auto simp: bnd_def fl_sub_def)
qed (use assms(1) in \<open>auto simp: bnd_def\<close>)

lemma bnd_truediv:
  assumes "bnd k c i v"
  shows "\<exists>xs. col_truediv c 4 = Inr xs \<and> i < length xs \<and> xs ! i = Fin (v / 4)"
  using assms by (cases c) (auto simp: bnd_def)

lemma plain_at_bnd:
  "plain_at d i col x \<Longrightarrow> \<exists>c. map_of d col = Some c \<and> bnd (2 ^ 60) c i x"
  by (auto simp: plain_at_def bnd_def split: option.splits column.splits)

lemma readiness_row:
  assumes "plain_at d i ''Technical Feasibility (1-5)'' tf"
    "plain_at d i ''Data Readiness (1-5)'' dr"
    "plain_at d i ''Change Impact (1-5)'' ci"
    "plain_at d i ''Risk (1-5)'' rk"
  shows "\<exists>rs. readiness_expr d = Inr rs \<and> i < length rs \<and>
     rs ! i = Fin ((tf + dr + (5 - ci) + (5 - rk)) / 4)"
proof -
  obtain a where a: "map_of d ''Technical Feasibility (1-5)'' = Some a" "bnd (2 ^ 60) a i tf"
    using plain_at_bnd[OF assms(1)] by blast
  obtain b where b: "map_of d ''Data Readiness (1-5)'' = Some b" "bnd (2 ^ 60) b i dr"
    using plain_at_bnd[OF assms(2)] by blast
  obtain c where c: "map_of d ''Change Impact (1-5)'' = Some c" "bnd (2 ^ 60) c i ci"
    using plain_at_bnd[OF assms(3)] by blast
  obtain e where e: "map_of d ''Risk (1-5)'' = Some e" "bnd (2 ^ 60) e i rk"
    using plain_at_bnd[OF assms(4)] by blast
  obtain r1 where r1: "col_add a b = Inr r1" "bnd (2 ^ 60 + 2 ^ 60) r1 i (tf + dr)"
    using bnd_add[OF a(2) b(2)] by auto
  obtain c1 where c1: "col_rsub 5 c = Inr c1" "bnd (2 ^ 60 + 5) c1 i (5 - ci)"
    using bnd_rsub[OF c(2)] by auto
  obtain r2 where r2: "col_add r1 c1 = Inr r2"
    "bnd (2 ^ 60 + 2 ^ 60 + (2 ^ 60 + 5)) r2 i (tf + dr + (5 - ci))"
    using bnd_add[OF r1(2) c1(2)] by auto
  obtain c2 where c2: "col_rsub 5 e = Inr c2" "bnd (2 ^ 60 + 5) c2 i (5 - rk)"
    using bnd_rsub[OF e(2)] by auto
  obtain r3 where r3: "col_add r2 c2 = Inr r3"
    "bnd (2 ^ 60 + 2 ^ 60 + (2 ^ 60 + 5) + (2 ^ 60 + 5)) r3 i (tf + dr + (5 - ci) + (5 - rk))"
    using bnd_add[OF r2(2) c2(2)] by auto
  obtain rs where rs: "col_truediv r3 4 = Inr rs" "i < length rs"
    "rs ! i = Fin ((tf + dr + (5 - ci) + (5 - rk)) / 4)"
    using bnd_truediv[OF r3(2)] by blast
  have "readiness_expr d = Inr rs"
    using a(1) b(1) c(1) e(1) r1(1) c1(1) r2(1) c2(1) r3(1) rs(1)
    by (simp add: readiness_expr_def dt_getitem_Some)
  with rs show ?thesis by blast
qed

lemma map_of_object_frame:
  "map_of (object_frame df) col = map_option (\<lambda>s. ObjCol (map obj_of s)) (map_of df col)"
  unfolding object_frame_def by (induction df) auto

lemma obj_of_num:
  "\<exists>y. obj_to_num (float_parser p) (obj_of c) = F y \<and> fillna_fl 0 y = Fin (num p c)"
  by (cases c) (auto simp: float_parser_def num_def split: option.splits)

lemma not_overflow_cell [simp]: "\<not> raises_overflow (obj_of c)"
  by (cases c) auto

lemma not_overflow_obj_of: "\<not> list_ex raises_overflow (map obj_of s)"
  by (induction s) auto

lemma not_int_obj_of:
  "s \<noteq> [] \<Longrightarrow> \<not> list_all (is_int_in lo hi) (map (obj_to_num (float_parser p)) (map obj_of s))"
proof (cases s)
  case Nil
  then show "s \<noteq> [] \<Longrightarrow> ?thesis" by simp
next
  case (Cons c cs)
  obtain y where "obj_to_num (float_parser p) (obj_of c) = F y"
    using obj_of_num by blast
  then show ?thesis using Cons by simp
qed

lemma coerce_object_column:
  assumes "i < length s"
  shows "\<exists>xs. dt_to_numeric (float_parser p) (ObjCol (map obj_of s)) = Inr (FloatCol xs) \<and>
     length xs = length s \<and> fillna_fl 0 (xs ! i) = Fin (num p (s ! i))"
proof -
  from assms have ne: "s \<noteq> []" by auto
  let ?xs = "map num_to_fl (map (obj_to_num (float_parser p)) (map obj_of s))"
  have "dt_to_numeric (float_parser p) (ObjCol (map obj_of s)) = Inr (FloatCol ?xs)"
    using not_overflow_obj_of[of s] not_int_obj_of[OF ne, of _ _ p]
    by (simp add: Let_def)
  moreover obtain y where "obj_to_num (float_parser p) (obj_of (s ! i)) = F y"
    "fillna_fl 0 y = Fin (num p (s ! i))"
    using obj_of_num by blast
  then have "fillna_fl 0 (?xs ! i) = Fin (num p (s ! i))"
    using assms by simp
  ultimately show ?thesis by auto
qed

lemma dt_coerce_columns_total:
  assumes "\<forall>k\<in>set cols. \<exists>s. map_of df k = Some s \<and> (\<exists>s'. dt_to_numeric p s = Inr s')"
    "distinct cols"
  shows "\<exists>d. dt_coerce_columns p cols df = Inr d"
  using assms
proof (induction cols arbitrary: df)
  case Nil
  then show ?case by simp
next
  case (Cons col cols)
  from Cons.prems(1) obtain s s' where s: "map_of df col = Some s" "dt_to_numeric p s = Inr s'"
    by auto
  let ?df1 = "dt_setitem df col (dt_fillna 0 s')"
  have "\<forall>k\<in>set cols. map_of ?df1 k = map_of df k"
    using Cons.prems(2) by (auto simp: dt_setitem_def update_conv')
  with Cons.prems have "\<forall>k\<in>set cols. \<exists>s. map_of ?df1 k = Some s \<and> (\<exists>s'. dt_to_numeric p s = Inr s')"
    by simp
  from Cons.IH[OF this] Cons.prems(2) obtain d where "dt_coerce_columns p cols ?df1 = Inr d"
    by auto
  with s show ?case by (simp add: dt_getitem_Some)
qed

lemma object_frame_coerces:
  assumes "frame_ok df"
  shows "\<exists>d. dt_coerce_columns (float_parser p) rating_columns (object_frame df) = Inr d"
proof (rule dt_coerce_columns_total)
  show "distinct rating_columns" by (simp add: rating_columns_def)
  show "\<forall>k\<in>set rating_columns. \<exists>s. map_of (object_frame df) k = Some s \<and>
       (\<exists>s'. dt_to_numeric (float_parser p) s = Inr s')"
  proof
    fix k assume k: "k \<in> set rating_columns"
    obtain s where s: "map_of df k = Some s" "length s = nrows df"
      using rating_col_present[OF assms k] .
    have "\<exists>s'. dt_to_numeric (float_parser p) (ObjCol (map obj_of s)) = Inr s'"
      using not_overflow_obj_of[of s] by (simp add: Let_def)
    with s(1) show "\<exists>s. map_of (object_frame df) k = Some s \<and>
       (\<exists>s'. dt_to_numeric (float_parser p) s = Inr s')"
      by (simp add: map_of_object_frame)
  qed
qed

lemma object_frame_plain:
  assumes "frame_ok df" "i < nrows df" "col \<in> set rating_columns"
    "dt_coerce_columns (float_parser p) rating_columns (object_frame df) = Inr d"
  shows "plain_at d i col (col_num p df col i)"
proof -
  obtain s where s: "map_of df col = Some s" "length s = nrows df"
    using rating_col_present[OF assms(1,3)] .
  have "distinct rating_columns" by (simp add: rating_columns_def)
  from dt_coerce_columns_char[OF this assms(4)] assms(3)
  obtain t t' where t: "map_of (object_frame df) col = Some t"
    "dt_to_numeric (float_parser p) t = Inr t'" "map_of d col = Some (dt_fillna 0 t')"
    by blast
  from t(1) s(1) have t_eq: "t = ObjCol (map obj_of s)"
    by (simp add: map_of_object_frame)
  from assms(2) s(2) have i: "i < length s" by simp
  from coerce_object_column[OF i, of p] t(2) t_eq
  obtain xs where xs: "t' = FloatCol xs" "length xs = length s"
    "fillna_fl 0 (xs ! i) = Fin (num p (s ! i))"
    by auto
  show ?thesis
    using t(3) xs i s(1) by (simp add: plain_at_def col_num_def)
qed

lemma plain_at_floats:
  assumes "plain_at d i col x"
  obtains c where "map_of d col = Some c" "is_numeric c" "i < length (floats c)"
    "floats c ! i = Fin x"
  using assms by (auto simp: plain_at_def split: option.splits column.splits)

lemma priority_row:
  assumes "plain_at d i ''Business Value (1-5)'' bv"
    "plain_at d i ''Technical Feasibility (1-5)'' tf"
    "plain_at d i ''Data Readiness (1-5)'' dr"
    "plain_at d i ''Change Impact (1-5)'' ci"
    "plain_at d i ''Risk (1-5)'' rk"
    "ws \<noteq> 0"
  shows "\<exists>ps. priority_expr d w_value w_feas w_data w_change w_risk ws = Inr ps \<and>
     i < length ps \<and>
     ps ! i = Fin ((bv * w_value + tf * w_feas + dr * w_data - ci * w_change - rk * w_risk) / ws)"
proof -
  obtain a where a: "map_of d ''Business Value (1-5)'' = Some a" "is_numeric a"
    "i < length (floats a)" "floats a ! i = Fin bv"
    using plain_at_floats[OF assms(1)] by blast
  obtain b where b: "map_of d ''Technical Feasibility (1-5)'' = Some b" "is_numeric b"
    "i < length (floats b)" "floats b ! i = Fin tf"
    using plain_at_floats[OF assms(2)] by blast
  obtain c where c: "map_of d ''Data Readiness (1-5)'' = Some c" "is_numeric c"
    "i < length (floats c)" "floats c ! i = Fin dr"
    using plain_at_floats[OF assms(3)] by blast
  obtain e where e: "map_of d ''Change Impact (1-5)'' = Some e" "is_numeric e"
    "i < length (floats e)" "floats e ! i = Fin ci"
    using plain_at_floats[OF assms(4)] by blast
  obtain f where f: "map_of d ''Risk (1-5)'' = Some f" "is_numeric f"
    "i < length (floats f)" "floats f ! i = Fin rk"
    using plain_at_floats[OF assms(5)] by blast
  show ?thesis
    unfolding priority_expr_numeric[OF a(1,2) b(1,2) c(1,2) e(1,2) f(1,2)]
    using a(3,4) b(3,4) c(3,4) e(3,4) f(3,4) assms(6)
    by (simp add: fl_sub_def)
qed

lemma dtype_model_agrees:
  assumes "frame_ok df" "i < nrows df"
  shows "\<exists>out out' ps rs.
     scored_df p df w_value w_feas w_data w_change w_risk = Some out \<and>
     dt_compute_scores (float_parser p) (object_frame df) w_value w_feas w_data w_change w_risk
       = Inr out' \<and>
     cell_at out i ''Priority Score'' = Some (Num ps) \<and>
     fl_at out' i ''Priority Score'' = Some (Fin ps) \<and>
     cell_at out i ''Readiness Score'' = Some (Num rs) \<and>
     fl_at out' i ''Readiness Score'' = Some (Fin rs)"
proof -
  let ?ws = "if w_value + w_feas + w_data + w_change + w_risk = 0 then 1
        else w_value + w_feas + w_data + w_change + w_risk"
  have ws: "?ws \<noteq> 0" by simp
  obtain d where d: "dt_coerce_columns (float_parser p) rating_columns (object_frame df) = Inr d"
    using object_frame_coerces[OF assms(1)] by blast
  note pl = object_frame_plain[OF assms in_rating_columns(1) d]
    object_frame_plain[OF assms in_rating_columns(2) d]
    object_frame_plain[OF assms in_rating_columns(3) d]
    object_frame_plain[OF assms in_rating_columns(4) d]
    object_frame_plain[OF assms in_rating_columns(5) d]
  from priority_row[OF pl ws, of w_value w_feas w_data w_change w_risk]
  obtain ps where ps: "priority_expr d w_value w_feas w_data w_change w_risk ?ws = Inr ps"
    "i < length ps"
    "ps ! i = Fin ((col_num p df ''Business Value (1-5)'' i * w_value
                    + col_num p df ''Technical Feasibility (1-5)'' i * w_feas
                    + col_num p df ''Data Readiness (1-5)'' i * w_data
                    - col_num p df ''Change Impact (1-5)'' i * w_change
                    - col_num p df ''Risk (1-5)'' i * w_risk) / ?ws)"
    by blast
  from readiness_row[OF pl(2-5)]
  obtain rs where rs: "readiness_expr d = Inr rs" "i < length rs"
    "rs ! i = Fin ((col_num p df ''Technical Feasibility (1-5)'' i
                    + col_num p df ''Data Readiness (1-5)'' i
                    + (5 - col_num p df ''Change Impact (1-5)'' i)
                    + (5 - col_num p df ''Risk (1-5)'' i)) / 4)"
    by blast
  let ?out' = "dt_setitem (dt_setitem d ''Priority Score'' (FloatCol ps))
              ''Readiness Score'' (FloatCol rs)"
  have run': "dt_compute_scores (float_parser p) (object_frame df) w_value w_feas w_data w_change w_risk
       = Inr ?out'"
    using dt_compute_scores_closed[OF d, of w_value w_feas w_data w_change w_risk] ps(1) rs(1)
    by auto
  let ?out = "scored_frame p df w_value w_feas w_data w_change w_risk"
  have run: "scored_df p df w_value w_feas w_data w_change w_risk = Some ?out"
    by (rule scored_df_closed[OF assms(1)])
  have "fl_at ?out' i ''Priority Score'' = Some (ps ! i)"
    "fl_at ?out' i ''Readiness Score'' = Some (rs ! i)"
    using ps(2) rs(2) by (simp_all add: fl_at_FloatCol map_of_scored_dt)
  moreover have "cell_at ?out i ''Priority Score'' =
       Some (Num ((col_num p df ''Business Value (1-5)'' i * w_value
                    + col_num p df ''Technical Feasibility (1-5)'' i * w_feas
                    + col_num p df ''Data Readiness (1-5)'' i * w_data
                    - col_num p df ''Change Impact (1-5)'' i * w_change
                    - col_num p df ''Risk (1-5)'' i * w_risk) / ?ws))"
    using assms(2) by (simp add: cell_at_priority priority_col_def)
  moreover have "cell_at ?out i ''Readiness Score'' =
       Some (Num ((col_num p df ''Technical Feasibility (1-5)'' i
                    + col_num p df ''Data Readiness (1-5)'' i
                    + (5 - col_num p df ''Change Impact (1-5)'' i)
                    + (5 - col_num p df ''Risk (1-5)'' i)) / 4))"
    using assms(2) by (simp add: cell_at_readiness readiness_col_def)
  ultimately show ?thesis
    using run run' ps(3) rs(3) by (metis (no_types, lifting))
qed

section \<open>The claims\<close>

text \<open>
  C1. For every row \<open>i\<close> of a frame of the data model and every choice of the five weights,
  the engine returns a frame whose Priority Score in row \<open>i\<close> is
  \<open>(bv * w_value + tf * w_feas + dr * w_data - ci * w_change - rk * w_risk) / weights_sum\<close>,
  where \<open>bv, tf, dr, ci, rk\<close> are the five (coerced) ratings of row \<open>i\<close> and
  \<open>weights_sum\<close> is the sum of the weights, replaced by 1 when it is 0. Change impact and
  risk are subtracted. For the ratings 5, 3, 3, 4, 3 and the weights 3, 2.5, 2.5, 2, 2 the
  Priority Score is 16/12 and the Readiness Score is 2.25.
\<close>

theorem priority_score_formula:
  assumes "frame_ok df" "i < nrows df"
  shows "\<exists>out bv tf dr ci rk.
     scored_df p df w_value w_feas w_data w_change w_risk = Some out \<and>
     rating p df i ''Business Value (1-5)'' = Some bv \<and>
     rating p df i ''Technical Feasibility (1-5)'' = Some tf \<and>
     rating p df i ''Data Readiness (1-5)'' = Some dr \<and>
     rating p df i ''Change Impact (1-5)'' = Some ci \<and>
     rating p df i ''Risk (1-5)'' = Some rk \<and>
     cell_at out i ''Priority Score'' =
       Some (Num ((bv * w_value + tf * w_feas + dr * w_data - ci * w_change - rk * w_risk)
                  / (if w_value + w_feas + w_data + w_change + w_risk = 0 then 1
                     else w_value + w_feas + w_data + w_change + w_risk))) \<and>
     (bv = 5 \<and> tf = 3 \<and> dr = 3 \<and> ci = 4 \<and> rk = 3 \<and> w_value = 3 \<and> w_feas = 2.5 \<and>
      w_data = 2.5 \<and> w_change = 2 \<and> w_risk = 2 \<longrightarrow>
        cell_at out i ''Priority Score'' = Some (Num (16 / 12)) \<and>
        cell_at out i ''Readiness Score'' = Some (Num 2.25))"
proof -
  let ?out = "scored_frame p df w_value w_feas w_data w_change w_risk"
  define bv tf dr ci rk where vals:
    "bv = col_num p df ''Business Value (1-5)'' i"
    "tf = col_num p df ''Technical Feasibility (1-5)'' i"
    "dr = col_num p df ''Data Readiness (1-5)'' i"
    "ci = col_num p df ''Change Impact (1-5)'' i"
    "rk = col_num p df ''Risk (1-5)'' i"
  have run: "scored_df p df w_value w_feas w_data w_change w_risk = Some ?out"
    by (rule scored_df_closed[OF assms(1)])
  have ps: "cell_at ?out i ''Priority Score'' =
       Some (Num ((bv * w_value + tf * w_feas + dr * w_data - ci * w_change - rk * w_risk)
                  / (if w_value + w_feas + w_data + w_change + w_risk = 0 then 1
                     else w_value + w_feas + w_data + w_change + w_risk)))"
    using assms(2) by (simp add: cell_at_priority priority_col_def vals)
  have rs: "cell_at ?out i ''Readiness Score'' = Some (Num ((tf + dr + (5 - ci) + (5 - rk)) / 4))"
    using assms(2) by (simp add: cell_at_readiness readiness_col_def vals)
  have inst: "bv = 5 \<and> tf = 3 \<and> dr = 3 \<and> ci = 4 \<and> rk = 3 \<and> w_value = 3 \<and> w_feas = 2.5 \<and>
      w_data = 2.5 \<and> w_change = 2 \<and> w_risk = 2 \<longrightarrow>
        cell_at ?out i ''Priority Score'' = Some (Num (16 / 12)) \<and>
        cell_at ?out i ''Readiness Score'' = Some (Num 2.25)"
  proof (intro impI, elim conjE)
    assume e: "bv = 5" "tf = 3" "dr = 3" "ci = 4" "rk = 3" "w_value = 3" "w_feas = 2.5"
      "w_data = 2.5" "w_change = 2" "w_risk = 2"
    show "cell_at ?out i ''Priority Score'' = Some (Num (16 / 12)) \<and>
        cell_at ?out i ''Readiness Score'' = Some (Num 2.25)"
      unfolding ps rs unfolding e by simp
  qed
  show ?thesis
    using run ps inst ratings_num[OF assms, of p, folded vals] by blast
qed

theorem priority_score_formula_witness:
  "frame_ok seed_data \<and> 0 < nrows seed_data \<and>
   (\<exists>out. scored_df (\<lambda>t. None) seed_data 3 2.5 2.5 2 2 = Some out \<and>
      cell_at out 0 ''Priority Score'' = Some (Num (16 / 12)) \<and>
      cell_at out 0 ''Readiness Score'' = Some (Num 2.25))"
proof -
  have ok: "frame_ok seed_data"
    by (simp add: frame_ok_def seed_data_def nrows_def rating_columns_def)
  have pos: "0 < nrows seed_data"
    by (simp add: seed_data_def nrows_def)
  have r: "rating (\<lambda>t. None) seed_data 0 ''Business Value (1-5)'' = Some 5"
    "rating (\<lambda>t. None) seed_data 0 ''Technical Feasibility (1-5)'' = Some 3"
    "rating (\<lambda>t. None) seed_data 0 ''Data Readiness (1-5)'' = Some 3"
    "rating (\<lambda>t. None) seed_data 0 ''Change Impact (1-5)'' = Some 4"
    "rating (\<lambda>t. None) seed_data 0 ''Risk (1-5)'' = Some 3"
    by (simp_all add: rating_def cell_at_def seed_data_def)
  from priority_score_formula[OF ok pos, of "\<lambda>t. None" 3 "2.5" "2.5" 2 2]
  show ?thesis
    unfolding r using ok pos by auto
qed

text \<open>
  C3, as amended. When the coercion of the ratings does not raise, the engine does not fail
  with all five weights 0, and the Priority Score is 0 in every row whose five coerced
  ratings are finite; in a row with an infinite rating it is NaN, since an infinity times
  zero is NaN and \<open>fillna(0)\<close> keeps infinities.
\<close>

theorem zero_weights_finite_rows:
  assumes "dt_frame_ok df" and "dt_coerce_columns p rating_columns df = Inr d"
  shows "\<exists>out. dt_compute_scores p df 0 0 0 0 0 = Inr out \<and>
     (\<forall>i<dt_nrows df. fl_at out i ''Priority Score'' =
        Some (if \<forall>col\<in>set rating_columns. \<exists>x. fl_at out i col = Some (Fin x)
              then Fin 0 else NaN))"
proof -
  let ?n = "dt_nrows df"
  obtain bv where bv: "map_of d ''Business Value (1-5)'' = Some bv" "is_numeric bv"
    "col_len bv = ?n"
    using coerced_rating_col[OF assms in_rating_columns(1)] by blast
  obtain tf where tf: "map_of d ''Technical Feasibility (1-5)'' = Some tf" "is_numeric tf"
    "col_len tf = ?n"
    using coerced_rating_col[OF assms in_rating_columns(2)] by blast
  obtain dr where dr: "map_of d ''Data Readiness (1-5)'' = Some dr" "is_numeric dr"
    "col_len dr = ?n"
    using coerced_rating_col[OF assms in_rating_columns(3)] by blast
  obtain ci where ci: "map_of d ''Change Impact (1-5)'' = Some ci" "is_numeric ci"
    "col_len ci = ?n"
    using coerced_rating_col[OF assms in_rating_columns(4)] by blast
  obtain rk where rk: "map_of d ''Risk (1-5)'' = Some rk" "is_numeric rk"
    "col_len rk = ?n"
    using coerced_rating_col[OF assms in_rating_columns(5)] by blast
  note lens = length_floats[OF bv(2)] length_floats[OF tf(2)] length_floats[OF dr(2)]
    length_floats[OF ci(2)] length_floats[OF rk(2)]
  from dt_compute_scores_closed[OF assms(2), of 0 0 0 0 0]
  obtain ps rs where ps: "priority_expr d 0 0 0 0 0 1 = Inr ps"
    and out: "dt_compute_scores p df 0 0 0 0 0 =
       Inr (dt_setitem (dt_setitem d ''Priority Score'' (FloatCol ps))
              ''Readiness Score'' (FloatCol rs))"
    by auto
  let ?out = "dt_setitem (dt_setitem d ''Priority Score'' (FloatCol ps))
              ''Readiness Score'' (FloatCol rs)"
  have ps_eq: "ps = map (\<lambda>x. fl_div x 1)
            (map2 fl_sub (map2 fl_sub (map2 fl_add (map2 fl_add
               (map (\<lambda>x. fl_scale x 0) (floats bv))
               (map (\<lambda>x. fl_scale x 0) (floats tf)))
               (map (\<lambda>x. fl_scale x 0) (floats dr)))
               (map (\<lambda>x. fl_scale x 0) (floats ci)))
               (map (\<lambda>x. fl_scale x 0) (floats rk)))"
    using ps priority_expr_numeric[OF bv(1,2) tf(1,2) dr(1,2) ci(1,2) rk(1,2), of 0 0 0 0 0 1]
    by simp
  have len_ps: "length ps = ?n"
    unfolding ps_eq using lens bv(3) tf(3) dr(3) ci(3) rk(3) by simp
  have row: "fl_at ?out i ''Priority Score'' =
        Some (if \<forall>col\<in>set rating_columns. \<exists>x. fl_at ?out i col = Some (Fin x)
              then Fin 0 else NaN)" if i: "i < ?n" for i
  proof -
    have rat: "fl_at ?out i ''Business Value (1-5)'' = Some (floats bv ! i)"
      "fl_at ?out i ''Technical Feasibility (1-5)'' = Some (floats tf ! i)"
      "fl_at ?out i ''Data Readiness (1-5)'' = Some (floats dr ! i)"
      "fl_at ?out i ''Change Impact (1-5)'' = Some (floats ci ! i)"
      "fl_at ?out i ''Risk (1-5)'' = Some (floats rk ! i)"
      using i bv tf dr ci rk
      by (simp_all add: fl_at_numeric map_of_scored_dt)
    have "fl_at ?out i ''Priority Score'' = Some (ps ! i)"
      using i len_ps by (simp add: fl_at_FloatCol map_of_scored_dt)
    also have "ps ! i = (if is_fin (floats bv ! i) \<and> is_fin (floats tf ! i) \<and>
        is_fin (floats dr ! i) \<and> is_fin (floats ci ! i) \<and> is_fin (floats rk ! i)
        then Fin 0 else NaN)"
      unfolding ps_eq using i lens bv(3) tf(3) dr(3) ci(3) rk(3)
      by (simp add: zero_weight_row del: fl_div.simps)
    finally show ?thesis
      by (simp add: rating_columns_def rat is_fin_iff)
  qed
  from out row show ?thesis by blast
qed

theorem zero_weights_finite_rows_witness:
  "dt_frame_ok inf_data \<and> dt_coerce_columns no_parse rating_columns inf_data = Inr inf_data \<and>
   (\<exists>out. dt_compute_scores no_parse inf_data 0 0 0 0 0 = Inr out \<and>
      fl_at out 0 ''Business Value (1-5)'' = Some PInf \<and>
      fl_at out 0 ''Priority Score'' = Some NaN \<and>
      fl_at out 1 ''Priority Score'' = Some (Fin 0))"
proof -
  have ok: "dt_frame_ok inf_data"
    by (simp add: dt_frame_ok_def inf_data_def dt_nrows_def rating_columns_def)
  have co: "dt_coerce_columns no_parse rating_columns inf_data = Inr inf_data"
    by (simp add: rating_columns_def inf_data_def dt_getitem_def dt_setitem_def)
  have n: "dt_nrows inf_data = 2" by (simp add: inf_data_def dt_nrows_def)
  from zero_weights_finite_rows[OF ok co] obtain out where
    out: "dt_compute_scores no_parse inf_data 0 0 0 0 0 = Inr out"
    and rows: "\<forall>i<dt_nrows inf_data. fl_at out i ''Priority Score'' =
        Some (if \<forall>col\<in>set rating_columns. \<exists>x. fl_at out i col = Some (Fin x)
              then Fin 0 else NaN)"
    by blast
  from dt_compute_scores_closed[OF co, of 0 0 0 0 0] out
  obtain ps rs where o: "out = dt_setitem (dt_setitem inf_data ''Priority Score'' (FloatCol ps))
              ''Readiness Score'' (FloatCol rs)"
    by auto
  have cells: "fl_at out 0 ''Business Value (1-5)'' = Some PInf"
    "fl_at out 1 ''Business Value (1-5)'' = Some (Fin 4)"
    "fl_at out 1 ''Technical Feasibility (1-5)'' = Some (Fin 4)"
    "fl_at out 1 ''Data Readiness (1-5)'' = Some (Fin 4)"
    "fl_at out 1 ''Change Impact (1-5)'' = Some (Fin 3)"
    "fl_at out 1 ''Risk (1-5)'' = Some (Fin 3)"
    unfolding o by (simp_all add: fl_at_def map_of_scored_dt inf_data_def)
  have "fl_at out 0 ''Priority Score'' = Some NaN"
    using rows n cells(1) by (simp add: rating_columns_def)
  moreover have "fl_at out 1 ''Priority Score'' = Some (Fin 0)"
    using rows n cells(2-6) by (simp add: rating_columns_def)
  ultimately show ?thesis using ok co out cells(1) by blast
qed

text \<open>
  The claim as stated fails: with an infinite Business Value in the first row and all
  weights 0, the Priority Score of that row is NaN.
\<close>

theorem zero_weights_nan_counterexample:
  "result_col (dt_compute_scores no_parse inf_data 0 0 0 0 0) ''Priority Score''
     = Some (FloatCol [NaN, Fin 0]) \<and> NaN \<noteq> Fin 0"
  by (simp add: dt_compute_scores_def rating_columns_def inf_data_def
      dt_getitem_def dt_setitem_def priority_expr_def readiness_expr_def fl_sub_def wrap64_def)

text \<open>
  C4. The coercion is meant never to raise (\<open>errors="coerce"\<close>, then \<open>fillna(0)\<close>), but
  on a frame with all columns of the data model whose Business Value is the integer object
  \<open>2 ^ 1024\<close> the call raises OverflowError.
\<close>

theorem coercion_overflow:
  "dt_frame_ok big_int_data \<and>
   dt_compute_scores no_parse big_int_data 3 2.5 2.5 2 2 = Inl OverflowError"
  by (simp add: dt_compute_scores_def rating_columns_def big_int_data_def
      dt_getitem_def float_overflow_def dt_frame_ok_def dt_nrows_def)




text \<open>
  C6. For every row whose five ratings are numbers in the interval from 1 to 5, the
  Readiness Score lies in the interval from 0 to 5.
\<close>

theorem readiness_score_range:
  assumes "frame_ok df" "i < nrows df"
    and "\<forall>col\<in>set rating_columns. \<exists>x. cell_at df i col = Some (Num x) \<and> 1 \<le> x \<and> x \<le> 5"
  shows "\<exists>out y. scored_df p df w_value w_feas w_data w_change w_risk = Some out \<and>
     cell_at out i ''Readiness Score'' = Some (Num y) \<and> 0 \<le> y \<and> y \<le> 5"
proof -
  let ?out = "scored_frame p df w_value w_feas w_data w_change w_risk"
  have run: "scored_df p df w_value w_feas w_data w_change w_risk = Some ?out"
    by (rule scored_df_closed[OF assms(1)])
  have bound: "1 \<le> col_num p df col i \<and> col_num p df col i \<le> 5"
    if col: "col \<in> set rating_columns" for col
  proof -
    from assms(3) col obtain x where x: "cell_at df i col = Some (Num x)" "1 \<le> x" "x \<le> 5"
      by blast
    have "rating p df i col = Some x" using x(1) by (simp add: rating_def)
    with rating_col_num[OF assms(1) col assms(2), of p] have "col_num p df col i = x" by simp
    with x show ?thesis by simp
  qed
  let ?y = "(col_num p df ''Technical Feasibility (1-5)'' i
                    + col_num p df ''Data Readiness (1-5)'' i
                    + (5 - col_num p df ''Change Impact (1-5)'' i)
                    + (5 - col_num p df ''Risk (1-5)'' i)) / 4"
  have rs: "cell_at ?out i ''Readiness Score'' = Some (Num ?y)"
    using assms(2) by (simp add: cell_at_readiness readiness_col_def)
  have "0 \<le> ?y \<and> ?y \<le> 5"
    using bound[OF in_rating_columns(2)] bound[OF in_rating_columns(3)]
      bound[OF in_rating_columns(4)] bound[OF in_rating_columns(5)]
    by simp
  with run rs show ?thesis by blast
qed

theorem readiness_score_range_witness:
  "frame_ok seed_data \<and> 2 < nrows seed_data \<and>
   cell_at seed_data 2 ''Business Value (1-5)'' = Some (Num 4) \<and>
   cell_at seed_data 2 ''Technical Feasibility (1-5)'' = Some (Num 3) \<and>
   cell_at seed_data 2 ''Data Readiness (1-5)'' = Some (Num 2) \<and>
   cell_at seed_data 2 ''Change Impact (1-5)'' = Some (Num 2) \<and>
   cell_at seed_data 2 ''Risk (1-5)'' = Some (Num 2) \<and>
   (\<exists>out y. scored_df (\<lambda>t. None) seed_data 3 2.5 2.5 2 2 = Some out \<and>
     cell_at out 2 ''Readiness Score'' = Some (Num y) \<and> 0 \<le> y \<and> y \<le> 5)"
proof -
  have ok: "frame_ok seed_data"
    by (simp add: frame_ok_def seed_data_def nrows_def rating_columns_def)
  have pos: "2 < nrows seed_data"
    by (simp add: seed_data_def nrows_def)
  have cells: "cell_at seed_data 2 ''Business Value (1-5)'' = Some (Num 4)"
    "cell_at seed_data 2 ''Technical Feasibility (1-5)'' = Some (Num 3)"
    "cell_at seed_data 2 ''Data Readiness (1-5)'' = Some (Num 2)"
    "cell_at seed_data 2 ''Change Impact (1-5)'' = Some (Num 2)"
    "cell_at seed_data 2 ''Risk (1-5)'' = Some (Num 2)"
    by (simp_all add: cell_at_def seed_data_def)
  have rng: "\<forall>col\<in>set rating_columns. \<exists>x. cell_at seed_data 2 col = Some (Num x) \<and> 1 \<le> x \<and> x \<le> 5"
    by (simp add: rating_columns_def cells)
  from readiness_score_range[OF ok pos rng, of "\<lambda>t. None" 3 "2.5" "2.5" 2 2] ok pos cells
  show ?thesis by blast
qed



text \<open>
  C8. The engine is deterministic and has no side effect: a call allocates one new frame
  and leaves every frame that existed before, the input among them, as it was; a second
  call with the same reference and weights returns a frame equal to the first result; and
  the result is the same from any heap that holds an equal frame.
\<close>

theorem deterministic_no_side_effects:
  assumes "r < length h" "frame_ok (h ! r)"
  shows "\<exists>r1 h1. compute_scores p h r w_value w_feas w_data w_change w_risk = Some (r1, h1) \<and>
     r1 = length h \<and> take (length h) h1 = h \<and> h1 ! r = h ! r \<and>
     (\<exists>r2 h2. compute_scores p h1 r w_value w_feas w_data w_change w_risk = Some (r2, h2) \<and>
        h2 ! r2 = h1 ! r1 \<and> take (length h1) h2 = h1 \<and> h2 ! r = h ! r) \<and>
     (\<forall>h' r'. r' < length h' \<and> h' ! r' = h ! r \<longrightarrow>
        (\<exists>r3 h3. compute_scores p h' r' w_value w_feas w_data w_change w_risk = Some (r3, h3) \<and>
           h3 ! r3 = h1 ! r1))"
proof -
  let ?out = "scored_frame p (h ! r) w_value w_feas w_data w_change w_risk"
  let ?h1 = "h @ [?out]"
  have run: "compute_scores p h r w_value w_feas w_data w_change w_risk = Some (length h, ?h1)"
    by (rule compute_scores_closed[OF assms])
  have same: "?h1 ! r = h ! r" using assms(1) by (simp add: nth_append)
  have r1: "r < length ?h1" using assms(1) by simp
  have ok1: "frame_ok (?h1 ! r)" unfolding same by (rule assms(2))
  have again: "compute_scores p ?h1 r w_value w_feas w_data w_change w_risk
      = Some (length ?h1, ?h1 @ [?out])"
    using compute_scores_closed[OF r1 ok1, of p w_value w_feas w_data w_change w_risk]
    unfolding same .
  have other: "\<forall>h' r'. r' < length h' \<and> h' ! r' = h ! r \<longrightarrow>
        (\<exists>r3 h3. compute_scores p h' r' w_value w_feas w_data w_change w_risk = Some (r3, h3) \<and>
           h3 ! r3 = ?h1 ! length h)"
  proof (intro allI impI, elim conjE)
    fix h' r' assume r': "r' < length h'" and eq: "h' ! r' = h ! r"
    have "frame_ok (h' ! r')" unfolding eq by (rule assms(2))
    from compute_scores_closed[OF r' this, of p w_value w_feas w_data w_change w_risk]
    show "\<exists>r3 h3. compute_scores p h' r' w_value w_feas w_data w_change w_risk = Some (r3, h3) \<and>
           h3 ! r3 = ?h1 ! length h"
      unfolding eq by simp
  qed
  have fresh: "?h1 ! length h = ?out" by (rule nth_append_length)
  have keep: "take (length h) ?h1 = h" by simp
  have fresh2: "(?h1 @ [?out]) ! length ?h1 = ?h1 ! length h"
    unfolding fresh by (rule nth_append_length)
  have keep2: "take (length ?h1) (?h1 @ [?out]) = ?h1"
    by (rule take_length_append)
  have same2: "(?h1 @ [?out]) ! r = h ! r"
    using assms(1) by (simp add: nth_append)
  have second: "\<exists>r2 h2. compute_scores p ?h1 r w_value w_feas w_data w_change w_risk = Some (r2, h2) \<and>
        h2 ! r2 = ?h1 ! length h \<and> take (length ?h1) h2 = ?h1 \<and> h2 ! r = h ! r"
    using again fresh2 keep2 same2 by blast
  show ?thesis
    by (rule exI[of _ "length h"], rule exI[of _ ?h1]) (intro conjI run refl keep same second other)
qed

theorem deterministic_no_side_effects_witness:
  "0 < length [seed_data] \<and> frame_ok ([seed_data] ! 0) \<and>
   (\<exists>r1 h1 r2 h2. compute_scores digit_parser [seed_data] 0 3 2.5 2.5 2 2 = Some (r1, h1) \<and>
      h1 ! 0 = seed_data \<and> r1 = 1 \<and>
      compute_scores digit_parser h1 0 3 2.5 2.5 2 2 = Some (r2, h2) \<and>
      h2 ! r2 = h1 ! r1 \<and> h2 ! 0 = seed_data)"
proof -
  have len: "0 < length [seed_data]" by simp
  have ok: "frame_ok ([seed_data] ! 0)"
    by (simp add: frame_ok_def seed_data_def nrows_def rating_columns_def)
  from deterministic_no_side_effects[OF len ok, of digit_parser 3 "2.5" "2.5" 2 2]
  obtain r1 h1 r2 h2 where
    a: "compute_scores digit_parser [seed_data] 0 3 2.5 2.5 2 2 = Some (r1, h1)"
      "r1 = length [seed_data]" "take (length [seed_data]) h1 = [seed_data]"
      "h1 ! 0 = [seed_data] ! 0"
    and b: "compute_scores digit_parser h1 0 3 2.5 2.5 2 2 = Some (r2, h2)"
      "h2 ! r2 = h1 ! r1" "h2 ! 0 = [seed_data] ! 0"
    by blast
  with a len ok show ?thesis by auto
qed



end
